theory Spec2Isabelle
  imports Complex_Main "HOL-Library.AList" "HOL-Library.Product_Lexorder"
begin

section \<open>Common Python notions\<close>

text \<open>
  Python floats are modelled as exact rationals (\<open>rat\<close>): every statement below is about
  the arithmetic the code writes down, not about binary rounding. A calendar date is
  modelled by its proleptic Gregorian ordinal (\<open>date.toordinal()\<close>), an integer from 1
  (\<open>date.min\<close>) to 3652059 (\<open>date.max\<close>, 31 December 9999); \<open>(a - b).days\<close> is
  \<open>a - b\<close>, and \<open>d + timedelta(days=k)\<close> raises \<open>OverflowError\<close> when it leaves that
  range. A \<open>datetime\<close> built from a date \<open>d\<close> is given by \<open>d\<close> and the minutes \<open>t\<close>
  counted from midnight of \<open>d\<close>; adding a \<open>timedelta\<close> raises \<open>OverflowError\<close> when the
  result is before \<open>datetime.min\<close> or after \<open>datetime.max\<close>.
\<close>

datatype py_error = ZeroDivisionError | ValueError | OverflowError

definition date_in_range :: "int \<Rightarrow> bool" where
  "date_in_range d = (1 \<le> d \<and> d \<le> 3652059)"

definition datetime_in_range :: "int \<Rightarrow> int \<Rightarrow> bool" where
  "datetime_in_range d t = (1440 \<le> d * 1440 + t \<and> d * 1440 + t < 3652060 * 1440)"

text \<open>\<open>date.weekday()\<close>: Monday is 0, Sunday is 6; ordinal 1 is a Monday.\<close>

definition weekday :: "int \<Rightarrow> int" where
  "weekday d = (d + 6) mod 7"

text \<open>Float division \<open>a / b\<close> raises on a zero divisor.\<close>

definition truediv :: "rat \<Rightarrow> rat \<Rightarrow> py_error + rat" where
  "truediv a b = (if b = 0 then Inl ZeroDivisionError else Inr (a / b))"

section \<open>src/app.py: StudyScheduleOptimizer\<close>

text \<open>
  \<open>calculate_priority_score(deadline, difficulty, importance)\<close>, with \<open>date.today()\<close>
  passed in as \<open>today\<close>.
\<close>

definition calculate_priority_score :: "int \<Rightarrow> int \<Rightarrow> int \<Rightarrow> int \<Rightarrow> py_error + rat" where
  "calculate_priority_score today deadline' difficulty' importance' =
     (let days_until_deadline = deadline' - today in
      case (if days_until_deadline \<le> 0 then Inr 10
            else truediv 1 (of_int days_until_deadline)) of
        Inl e \<Rightarrow> Inl e
      | Inr urgency_factor \<Rightarrow>
          Inr (urgency_factor * (4 / 10) +
               of_int difficulty' / 5 * (3 / 10) +
               of_int importance' / 5 * (3 / 10)))"

text \<open>
  A subject is a Python dict. The keys \<open>name\<close>, \<open>deadline\<close> and \<open>difficulty\<close> occur in
  every variant of the program; \<open>src/app.py\<close> adds \<open>study_hours\<close> and \<open>importance\<close>, and
  its allocator stores \<open>priority_score\<close> into the caller's dict (\<open>None\<close>: key absent).
\<close>

record subject_core =
  name :: string
  deadline :: int
  difficulty :: int

record optimizer_subject = subject_core +
  study_hours :: int
  importance :: int
  priority_score :: "rat option"

datatype kind = Study | Break

text \<open>
  A schedule entry. In \<open>src/app.py\<close> the clock is a \<open>datetime\<close> advanced by whole
  minutes; \<open>start_time\<close> and \<open>end_time\<close> are its \<open>strftime('%H:%M')\<close>, modelled by the
  minute of the day (\<open>0 .. 1439\<close>), whose order is the order of the strings.
\<close>

record 't entry_core =
  date :: int
  start_time :: 't
  end_time :: 't
  subject :: string
  type :: kind

record optimizer_entry = "int entry_core" +
  duration :: int

definition strftime_HM :: "int \<Rightarrow> int" where
  "strftime_HM current_time = current_time mod 1440"

text \<open>\<open>round(x, 1)\<close>: to one decimal, ties to the even digit.\<close>

definition round_half_even :: "rat \<Rightarrow> int" where
  "round_half_even y =
     (let f = \<lfloor>y\<rfloor>; d = y - of_int f in
      if d < 1 / 2 then f
      else if 1 / 2 < d then f + 1
      else if even f then f else f + 1)"

definition py_round1 :: "rat \<Rightarrow> rat" where
  "py_round1 x = of_int (round_half_even (x * 10)) / 10"

text \<open>\<open>int(x)\<close> on a float truncates towards zero.\<close>

definition py_int :: "rat \<Rightarrow> int" where
  "py_int x = (if 0 \<le> x then \<lfloor>x\<rfloor> else \<lceil>x\<rceil>)"

text \<open>
  Lines 79-84 of \<open>distribute_study_hours\<close>: the loop that writes \<open>priority_score\<close> into
  each subject dict of the caller's list.
\<close>

fun score_subjects :: "int \<Rightarrow> optimizer_subject list \<Rightarrow> py_error + optimizer_subject list" where
  "score_subjects today [] = Inr []"
| "score_subjects today (s # rest) =
     (case calculate_priority_score today (deadline s) (difficulty s) (importance s) of
        Inl e \<Rightarrow> Inl e
      | Inr p \<Rightarrow>
          (case score_subjects today rest of
             Inl e \<Rightarrow> Inl e
           | Inr rest' \<Rightarrow> Inr (s\<lparr>priority_score := Some p\<rparr> # rest')))"

text \<open>
  \<open>subject['priority_score']\<close> as read after that loop, where the key is always present.
\<close>

definition score_of :: "optimizer_subject \<Rightarrow> rat" where
  "score_of s = (case priority_score s of Some p \<Rightarrow> p | None \<Rightarrow> 0)"

text \<open>
  The allocation loop (lines 96-106). \<open>i == len(sorted_subjects) - 1\<close> holds exactly at the
  last element. The dict \<open>hour_distribution\<close> keeps insertion order, and assigning to a key
  that exists keeps its place: an association list with \<open>AList.update\<close>.
\<close>

fun distribute_loop ::
  "rat \<Rightarrow> rat \<Rightarrow> optimizer_subject list \<Rightarrow> rat \<Rightarrow> (string \<times> rat) list \<Rightarrow>
     py_error + (string \<times> rat) list" where
  "distribute_loop total_priority total_daily_hours [] remaining_hours hour_distribution =
     Inr hour_distribution"
| "distribute_loop total_priority total_daily_hours (s # rest) remaining_hours hour_distribution =
     (if rest = [] then
        (let hours = remaining_hours;
             hours = (if remaining_hours > 0
                      then max (1 / 2) (min hours (remaining_hours + 1 / 2)) else 0)
         in distribute_loop total_priority total_daily_hours rest remaining_hours
              (AList.update (name s) hours hour_distribution))
      else
        (case truediv (score_of s) total_priority of
           Inl e \<Rightarrow> Inl e
         | Inr proportion \<Rightarrow>
             (let hours = py_round1 (proportion * total_daily_hours);
                  remaining_hours = remaining_hours - hours;
                  hours = (if remaining_hours > 0
                           then max (1 / 2) (min hours (remaining_hours + 1 / 2)) else 0)
              in distribute_loop total_priority total_daily_hours rest remaining_hours
                   (AList.update (name s) hours hour_distribution))))"

text \<open>
  \<open>distribute_study_hours(subjects, total_daily_hours)\<close>. The result pairs the caller's
  list as the call leaves it with the returned dict. \<open>sorted(..., reverse=True)\<close> is stable:
  a stable ascending sort on the negated key.
\<close>

definition distribute_study_hours ::
  "int \<Rightarrow> optimizer_subject list \<Rightarrow> int \<Rightarrow>
     py_error + (optimizer_subject list \<times> (string \<times> rat) list)" where
  "distribute_study_hours today subjects total_daily_hours =
     (if subjects = [] then Inr (subjects, [])
      else
        (case score_subjects today subjects of
           Inl e \<Rightarrow> Inl e
         | Inr subjects' \<Rightarrow>
             (let sorted_subjects = sort_key (\<lambda>x. - score_of x) subjects';
                  total_priority = sum_list (map score_of sorted_subjects)
              in case distribute_loop total_priority (of_int total_daily_hours) sorted_subjects
                        (of_int total_daily_hours) [] of
                   Inl e \<Rightarrow> Inl e
                 | Inr hour_distribution \<Rightarrow> Inr (subjects', hour_distribution))))"

text \<open>
  The \<open>while total_minutes > 0\<close> loop of \<open>_create_daily_schedule\<close> (lines 190-217). With
  \<open>session_length \<le> 0\<close> it runs on until the clock leaves the range of \<open>datetime\<close>, and
  for ever when the session length is 0, so it is a partial function: \<open>None\<close> is "does
  not return". The clock \<open>current_time\<close> counts minutes from midnight of \<open>date\<close>; the two
  additions \<open>current_time + timedelta(minutes=...)\<close> can raise.
\<close>

partial_function (option) study_sessions ::
  "int \<Rightarrow> string \<Rightarrow> int \<Rightarrow> int \<Rightarrow> int \<Rightarrow> int \<Rightarrow> optimizer_entry list \<Rightarrow>
     (py_error + int \<times> optimizer_entry list) option" where
  "study_sessions date' subject' session_length break_length total_minutes current_time
       daily_schedule =
     (if total_minutes > 0 then
        (let session_duration = min session_length total_minutes in
         if \<not> datetime_in_range date' (current_time + session_duration) then
           Some (Inl OverflowError)
         else
           (let daily_schedule = daily_schedule @
                  [\<lparr>date = date', start_time = strftime_HM current_time,
                    end_time = strftime_HM (current_time + session_duration),
                    subject = subject', type = Study, duration = session_duration\<rparr>];
                current_time = current_time + session_duration;
                total_minutes = total_minutes - session_duration
            in if total_minutes > 0 then
                 (if \<not> datetime_in_range date' (current_time + break_length) then
                    Some (Inl OverflowError)
                  else
                    study_sessions date' subject' session_length break_length total_minutes
                      (current_time + break_length)
                      (daily_schedule @
                        [\<lparr>date = date', start_time = strftime_HM current_time,
                          end_time = strftime_HM (current_time + break_length),
                          subject = ''Break'', type = Break, duration = break_length\<rparr>]))
               else
                 study_sessions date' subject' session_length break_length total_minutes
                   current_time daily_schedule))
      else Some (Inr (current_time, daily_schedule)))"

declare study_sessions.simps [code]

text \<open>The \<open>for subject, hours in hour_distribution.items()\<close> loop (lines 184-217).\<close>

fun subjects_loop ::
  "int \<Rightarrow> int \<Rightarrow> int \<Rightarrow> (string \<times> rat) list \<Rightarrow> int \<Rightarrow> optimizer_entry list \<Rightarrow>
     (py_error + int \<times> optimizer_entry list) option" where
  "subjects_loop date' session_length break_length [] current_time daily_schedule =
     Some (Inr (current_time, daily_schedule))"
| "subjects_loop date' session_length break_length ((subject', hours) # rest) current_time
       daily_schedule =
     (if hours > 0 then
        (case study_sessions date' subject' session_length break_length (py_int (hours * 60))
                current_time daily_schedule of
           None \<Rightarrow> None
         | Some (Inl e) \<Rightarrow> Some (Inl e)
         | Some (Inr (current_time, daily_schedule)) \<Rightarrow>
             subjects_loop date' session_length break_length rest current_time daily_schedule)
      else subjects_loop date' session_length break_length rest current_time daily_schedule)"

text \<open>
  \<open>_create_daily_schedule\<close>. The argument \<open>start_time\<close> stands for the pair
  \<open>map(int, start_time.split(':'))\<close>; \<open>time.replace(hour=, minute=)\<close> raises \<open>ValueError\<close>
  outside \<open>0..23\<close> and \<open>0..59\<close>.
\<close>

definition create_daily_schedule ::
  "int \<Rightarrow> (string \<times> rat) list \<Rightarrow> int \<Rightarrow> int \<Rightarrow> int \<times> int \<Rightarrow>
     (py_error + optimizer_entry list) option" where
  "create_daily_schedule date' hour_distribution session_length break_length start_time' =
     (case start_time' of (start_hour, start_minute) \<Rightarrow>
        if 0 \<le> start_hour \<and> start_hour < 24 \<and> 0 \<le> start_minute \<and> start_minute < 60 then
          (case subjects_loop date' session_length break_length hour_distribution
                  (start_hour * 60 + start_minute) [] of
             None \<Rightarrow> None
           | Some (Inl e) \<Rightarrow> Some (Inl e)
           | Some (Inr (current_time, daily_schedule)) \<Rightarrow> Some (Inr daily_schedule))
        else Some (Inl ValueError))"

text \<open>
  The \<open>while current_date <= max_date\<close> loop of \<open>generate_schedule\<close> (lines 140-152).
  Each pass ends with \<open>current_date += timedelta(days=1)\<close>, which raises when
  \<open>current_date\<close> is \<open>date.max\<close>.
\<close>

function days_loop ::
  "(string \<times> rat) list \<Rightarrow> int \<Rightarrow> int \<Rightarrow> int \<times> int \<Rightarrow> int \<Rightarrow> int \<Rightarrow> optimizer_entry list \<Rightarrow>
     (py_error + optimizer_entry list) option" where
  "days_loop hour_distribution session_length break_length start_time' max_date current_date
       schedule =
     (if current_date \<le> max_date then
        (if weekday current_date < 5 then
           (case create_daily_schedule current_date hour_distribution session_length
                   break_length start_time' of
              None \<Rightarrow> None
            | Some (Inl e) \<Rightarrow> Some (Inl e)
            | Some (Inr daily_schedule) \<Rightarrow>
                if \<not> date_in_range (current_date + 1) then Some (Inl OverflowError)
                else
                  days_loop hour_distribution session_length break_length start_time' max_date
                    (current_date + 1) (schedule @ daily_schedule))
         else if \<not> date_in_range (current_date + 1) then Some (Inl OverflowError)
         else days_loop hour_distribution session_length break_length start_time' max_date
                (current_date + 1) schedule)
      else Some (Inr schedule))"
  by pat_completeness auto
termination
  by (relation "measure (\<lambda>(h, sl, bl, st, max_date, current_date, sch).
        nat (max_date + 1 - current_date))") auto

declare days_loop.simps [simp del]

text \<open>
  \<open>generate_schedule\<close>, with \<open>date.today()\<close> passed in as \<open>today\<close>. Line 138,
  \<open>max_date = start_date + timedelta(days=30)\<close>, can raise.
\<close>

definition generate_schedule ::
  "int \<Rightarrow> optimizer_subject list \<Rightarrow> int \<Rightarrow> int \<Rightarrow> int \<Rightarrow> int \<Rightarrow> int \<times> int \<Rightarrow>
     (py_error + optimizer_entry list) option" where
  "generate_schedule today subjects start_date daily_hours session_length break_length
       start_time' =
     (case distribute_study_hours today subjects daily_hours of
        Inl e \<Rightarrow> Some (Inl e)
      | Inr (subjects', hour_distribution) \<Rightarrow>
          if \<not> date_in_range (start_date + 30) then Some (Inl OverflowError)
          else
            days_loop hour_distribution session_length break_length start_time'
              (start_date + 30) start_date [])"

subsection \<open>Auxiliary notions for the allocator\<close>

text \<open>The value \<open>calculate_priority_score\<close> returns for a subject dict.\<close>

definition blend :: "int \<Rightarrow> optimizer_subject \<Rightarrow> rat" where
  "blend today s =
     (if deadline s - today \<le> 0 then 10 else 1 / of_int (deadline s - today)) * (4 / 10) +
     of_int (difficulty s) / 5 * (3 / 10) + of_int (importance s) / 5 * (3 / 10)"

definition set_score :: "int \<Rightarrow> optimizer_subject \<Rightarrow> optimizer_subject" where
  "set_score today s = s\<lparr>priority_score := Some (blend today s)\<rparr>"

text \<open>Line 105: the hours a loop step stores, from the share and the hours left.\<close>

definition clamp_hours :: "rat \<Rightarrow> rat \<Rightarrow> rat" where
  "clamp_hours hours remaining_hours =
     (if remaining_hours > 0 then max (1 / 2) (min hours (remaining_hours + 1 / 2)) else 0)"

text \<open>The dict \<open>distribute_study_hours\<close> returns, and the sum of its values.\<close>

definition allocation :: "int \<Rightarrow> optimizer_subject list \<Rightarrow> int \<Rightarrow> py_error + (string \<times> rat) list" where
  "allocation today subjects total_daily_hours =
     (case distribute_study_hours today subjects total_daily_hours of
        Inl e \<Rightarrow> Inl e
      | Inr (subjects', hour_distribution) \<Rightarrow> Inr hour_distribution)"

definition allocated_total :: "(string \<times> rat) list \<Rightarrow> rat" where
  "allocated_total hour_distribution = sum_list (map snd hour_distribution)"

subsection \<open>Auxiliary notions for the daily schedule\<close>

text \<open>
  The blocks the \<open>while\<close> loop appends for one subject when \<open>session_length\<close> is
  positive, as a total function, and the blocks of a whole day.
\<close>

function session_blocks :: "int \<Rightarrow> string \<Rightarrow> int \<Rightarrow> int \<Rightarrow> int \<Rightarrow> int \<Rightarrow> optimizer_entry list" where
  "session_blocks date' subject' session_length break_length total_minutes current_time =
     (if 0 < total_minutes \<and> 0 < session_length then
        \<lparr>date = date', start_time = strftime_HM current_time,
          end_time = strftime_HM (current_time + min session_length total_minutes),
          subject = subject', type = Study, duration = min session_length total_minutes\<rparr> #
        (if 0 < total_minutes - min session_length total_minutes then
           \<lparr>date = date',
             start_time = strftime_HM (current_time + min session_length total_minutes),
             end_time = strftime_HM (current_time + min session_length total_minutes + break_length),
             subject = ''Break'', type = Break, duration = break_length\<rparr> #
           session_blocks date' subject' session_length break_length
             (total_minutes - min session_length total_minutes)
             (current_time + min session_length total_minutes + break_length)
         else [])
      else [])"
  by pat_completeness auto
termination
  by (relation "measure (\<lambda>(d, s, sl, bl, tm, ct). nat tm)") auto

declare session_blocks.simps [simp del]

fun day_blocks :: "int \<Rightarrow> int \<Rightarrow> int \<Rightarrow> (string \<times> rat) list \<Rightarrow> int \<Rightarrow> optimizer_entry list" where
  "day_blocks date' session_length break_length [] current_time = []"
| "day_blocks date' session_length break_length ((subject', hours) # rest) current_time =
     (if hours > 0 then
        session_blocks date' subject' session_length break_length (py_int (hours * 60))
          current_time @
        day_blocks date' session_length break_length rest
          (current_time + sum_list (map duration
             (session_blocks date' subject' session_length break_length (py_int (hours * 60))
                current_time)))
      else day_blocks date' session_length break_length rest current_time)"

text \<open>
  A day's list is contiguous from clock reading \<open>t\<close>: the first block starts at \<open>t\<close>, every
  block ends at its start plus its duration on the 24-hour clock, and the next block
  starts where it ends.
\<close>

fun contiguous_from :: "int \<Rightarrow> optimizer_entry list \<Rightarrow> bool" where
  "contiguous_from t [] = True"
| "contiguous_from t (e # es) =
     (start_time e = t \<and> end_time e = (start_time e + duration e) mod 1440 \<and>
      contiguous_from (end_time e) es)"

text \<open>
  Every Study block that is not the last block of the list is followed by a Break of
  \<open>break_length\<close> minutes.
\<close>

fun break_after_every_study :: "int \<Rightarrow> optimizer_entry list \<Rightarrow> bool" where
  "break_after_every_study break_length (e1 # e2 # es) =
     ((if type e1 = Study then type e2 = Break \<and> duration e2 = break_length else True) \<and>
      break_after_every_study break_length (e2 # es))"
| "break_after_every_study break_length es = True"

text \<open>
  The same with the clock read before it is formatted: \<open>t\<close> counts minutes from midnight
  of the day and is not reduced modulo 24 hours.
\<close>

fun chain :: "int \<Rightarrow> optimizer_entry list \<Rightarrow> bool" where
  "chain t [] = True"
| "chain t (e # es) =
     (start_time e = strftime_HM t \<and> end_time e = strftime_HM (t + duration e) \<and>
      chain (t + duration e) es)"


definition day_minutes :: "int \<Rightarrow> optimizer_entry list \<Rightarrow> int" where
  "day_minutes d schedule = sum_list (map duration (filter (\<lambda>e. date e = d) schedule))"

text \<open>
  Well-formed input in the sense of the specification's error taxonomy: hours needed are
  positive, difficulty and importance lie on the 1-5 scale, the session length is positive
  and fits in the daily budget, the break is not negative and the start time is a time
  of day.
\<close>

definition valid_subject :: "optimizer_subject \<Rightarrow> bool" where
  "valid_subject s =
     (0 < study_hours s \<and> 1 \<le> difficulty s \<and> difficulty s \<le> 5 \<and>
      1 \<le> importance s \<and> importance s \<le> 5)"

definition valid_settings :: "int \<Rightarrow> int \<Rightarrow> int \<Rightarrow> int \<times> int \<Rightarrow> bool" where
  "valid_settings daily_hours session_length break_length start_time' =
     (0 < daily_hours \<and> 0 < session_length \<and> session_length \<le> daily_hours * 60 \<and>
      0 \<le> break_length \<and>
      0 \<le> fst start_time' \<and> fst start_time' < 24 \<and>
      0 \<le> snd start_time' \<and> snd start_time' < 60)"

text \<open>
  The Study minutes of a day's list, and the minutes \<open>_create_daily_schedule\<close> slices for
  the subjects of an allocation (\<open>int(hours * 60)\<close> where \<open>hours > 0\<close>).
\<close>

definition study_total :: "optimizer_entry list \<Rightarrow> int" where
  "study_total daily_schedule =
     sum_list (map duration (filter (\<lambda>e. type e = Study) daily_schedule))"

definition allocated_minutes :: "(string \<times> rat) list \<Rightarrow> int" where
  "allocated_minutes hour_distribution =
     sum_list (map (\<lambda>(subject', hours). if hours > 0 then py_int (hours * 60) else 0)
       hour_distribution)"

section \<open>Schedulyze/api.py: StudyScheduler\<close>

text \<open>
  The subjects of this scheduler are pydantic models with \<open>hours_needed\<close> (a float) in
  place of \<open>study_hours\<close> and no \<open>importance\<close>; the field \<open>description\<close>, which nothing
  reads, is left out. Of the settings, the key \<open>start_time\<close> is the field
  \<open>day_start_time\<close> here, as hour and minute; the integer \<open>daily_hours\<close> is embedded in
  the rationals; \<open>start_date\<close> is a key of the settings dict of \<open>Schedulyze/app.py\<close>, whose
  class has the same scorer, and is not read here.
\<close>

record scheduler_subject = subject_core +
  hours_needed :: rat

record settings =
  session_length :: int
  break_length :: int
  daily_hours :: rat
  start_date :: int
  day_start_time :: "int \<times> int"
  include_weekends :: bool

text \<open>
  Entries of this scheduler also carry the keys \<open>priority_score\<close> and \<open>difficulty\<close>
  (fields \<open>entry_priority_score\<close> and \<open>entry_difficulty\<close>).
\<close>

record 't scored_entry = "'t entry_core" +
  entry_priority_score :: rat
  entry_difficulty :: int

text \<open>The urgency tiers of \<open>calculate_priority_score\<close> (lines 47-56 of \<open>api.py\<close>).\<close>

definition urgency_score :: "int \<Rightarrow> int" where
  "urgency_score days_until_deadline =
     (if days_until_deadline \<le> 0 then 100
      else if days_until_deadline \<le> 1 then 90
      else if days_until_deadline \<le> 3 then 70
      else if days_until_deadline \<le> 7 then 50
      else max 10 (50 - (days_until_deadline - 7) * 2))"

text \<open>
  \<open>StudyScheduler.calculate_priority_score(subject)\<close>, with \<open>datetime.now().date()\<close>
  passed in as \<open>today\<close>.
\<close>

definition calculate_priority_score_tiered :: "int \<Rightarrow> scheduler_subject \<Rightarrow> rat" where
  "calculate_priority_score_tiered today s =
     (let days_until_deadline = deadline s - today;
          difficulty_multiplier = of_int (difficulty s) / 10;
          hours_factor = min (hours_needed s / 10) 1
      in of_int (urgency_score days_until_deadline) * (1 + difficulty_multiplier + hours_factor))"

subsection \<open>Schedulyze/api.py: generate_optimized_schedule\<close>

text \<open>
  Here the clock is a \<open>datetime\<close> advanced by float hours, a rational number of minutes
  from midnight of \<open>study_date\<close>; \<open>start_time\<close> and \<open>end_time\<close> are its
  \<open>strftime('%H:%M')\<close>, the minute of the day with the seconds dropped, and \<open>date\<close>
  stands for the \<open>'%Y-%m-%d'\<close> string of \<open>study_date\<close>. The key \<open>session_type\<close> is the
  field \<open>type\<close>.
\<close>

record api_entry = "int scored_entry" +
  duration_hours :: rat

definition strftime_HM_float :: "rat \<Rightarrow> int" where
  "strftime_HM_float current_time = \<lfloor>current_time\<rfloor> mod 1440"

text \<open>
  One pass through the body of \<open>for session in range(sessions_today)\<close> (lines 121-158).
  The state is \<open>hours_remaining\<close>, \<open>current_time\<close> and \<open>schedule\<close>; the flag tells
  whether the body left the loop by \<open>break\<close>. The subject is the dict \<open>subject_data\<close>:
  the pydantic fields and the \<open>priority_score\<close> stored at line 77.
\<close>

type_synonym api_state = "rat \<times> rat \<times> api_entry list"

definition api_session_step ::
  "settings \<Rightarrow> scheduler_subject \<times> rat \<Rightarrow> int \<Rightarrow> int \<Rightarrow> nat \<Rightarrow> api_state \<Rightarrow> bool \<times> api_state" where
  "api_session_step settings' subject_data study_date sessions_today session state =
     (case state of (hours_remaining, current_time, schedule) \<Rightarrow>
      let session_duration_hours = of_int (session_length settings') / 60;
          session_duration = min session_duration_hours hours_remaining
      in
      if session_duration \<le> 0 then (True, state)
      else
        (let end_time' = current_time + session_duration * 60;
             schedule = schedule @
               [\<lparr>date = study_date, start_time = strftime_HM_float current_time,
                 end_time = strftime_HM_float end_time', subject = name (fst subject_data),
                 type = Study, entry_priority_score = snd subject_data,
                 entry_difficulty = difficulty (fst subject_data),
                 duration_hours = session_duration\<rparr>];
             hours_remaining = hours_remaining - session_duration;
             current_time = end_time' + of_int (break_length settings')
         in
         if int session < sessions_today - 1 \<and> hours_remaining > 0 then
           (False, hours_remaining, current_time,
            schedule @
              [\<lparr>date = study_date,
                start_time = strftime_HM_float (current_time - of_int (break_length settings')),
                end_time = strftime_HM_float current_time, subject = ''Break'', type = Break,
                entry_priority_score = 0, entry_difficulty = 0,
                duration_hours = of_int (break_length settings') / 60\<rparr>])
         else (False, hours_remaining, current_time, schedule)))"

fun api_sessions_loop ::
  "settings \<Rightarrow> scheduler_subject \<times> rat \<Rightarrow> int \<Rightarrow> int \<Rightarrow> nat list \<Rightarrow> api_state \<Rightarrow> api_state" where
  "api_sessions_loop settings' subject_data study_date sessions_today [] state = state"
| "api_sessions_loop settings' subject_data study_date sessions_today (session # rest) state =
     (case api_session_step settings' subject_data study_date sessions_today session state of
        (True, state') \<Rightarrow> state'
      | (False, state') \<Rightarrow>
          api_sessions_loop settings' subject_data study_date sessions_today rest state')"

text \<open>
  One pass through the body of \<open>for day_offset in range(days_available)\<close> (lines
  99-161), run only when \<open>session_length\<close> is not 0 (line 97 has raised otherwise). The
  flag tells whether the body left the loop by the \<open>break\<close> of line 161; the weekend
  \<open>continue\<close> skips that test. \<open>strptime(start_time, "%H:%M")\<close> raises \<open>ValueError\<close>
  unless the hour and the minute are in range.
\<close>

definition api_day_step ::
  "int \<Rightarrow> settings \<Rightarrow> scheduler_subject \<times> rat \<Rightarrow> int \<Rightarrow> nat \<Rightarrow> rat \<times> api_entry list \<Rightarrow>
     py_error + bool \<times> rat \<times> api_entry list" where
  "api_day_step current_date settings' subject_data days_available day_offset state =
     (case state of (hours_remaining, schedule) \<Rightarrow>
      let study_date = current_date + int day_offset in
      if \<not> include_weekends settings' \<and> weekday study_date \<ge> 5 then
        Inr (False, hours_remaining, schedule)
      else
        (let remaining_days = days_available - int day_offset;
             hours_today = min (min (hours_remaining / of_int (max remaining_days 1))
                                  (daily_hours settings')) hours_remaining
         in
         if hours_today > 0 then
           (let sessions_today =
                  \<lceil>hours_today / (of_int (session_length settings') / 60)\<rceil>
            in
            case day_start_time settings' of (hour, minute) \<Rightarrow>
              if 0 \<le> hour \<and> hour < 24 \<and> 0 \<le> minute \<and> minute < 60 then
                (case api_sessions_loop settings' subject_data study_date sessions_today
                        [0..<nat sessions_today]
                        (hours_remaining, of_int (hour * 60 + minute), schedule) of
                   (hours_remaining, current_time, schedule) \<Rightarrow>
                     Inr (hours_remaining \<le> 0, hours_remaining, schedule))
              else Inl ValueError)
         else Inr (hours_remaining \<le> 0, hours_remaining, schedule)))"

fun api_days_loop ::
  "int \<Rightarrow> settings \<Rightarrow> scheduler_subject \<times> rat \<Rightarrow> int \<Rightarrow> nat list \<Rightarrow> rat \<times> api_entry list \<Rightarrow>
     py_error + rat \<times> api_entry list" where
  "api_days_loop current_date settings' subject_data days_available [] state = Inr state"
| "api_days_loop current_date settings' subject_data days_available (day_offset # offsets) state =
     (case api_day_step current_date settings' subject_data days_available day_offset state of
        Inl e \<Rightarrow> Inl e
      | Inr (True, state') \<Rightarrow> Inr state'
      | Inr (False, state') \<Rightarrow>
          api_days_loop current_date settings' subject_data days_available offsets state')"

text \<open>
  The loop \<open>for subject in subjects_dict\<close> (lines 85-161). Line 97 divides by
  \<open>session_length / 60\<close> and raises \<open>ZeroDivisionError\<close> when the session length is 0.
\<close>

fun api_subjects_loop ::
  "int \<Rightarrow> settings \<Rightarrow> (scheduler_subject \<times> rat) list \<Rightarrow> api_entry list \<Rightarrow>
     py_error + api_entry list" where
  "api_subjects_loop current_date settings' [] schedule = Inr schedule"
| "api_subjects_loop current_date settings' (subject_data # rest) schedule =
     (let hours_remaining = hours_needed (fst subject_data);
          days_available = deadline (fst subject_data) - current_date + 1
      in
      if days_available \<le> 0 then api_subjects_loop current_date settings' rest schedule
      else if session_length settings' = 0 then Inl ZeroDivisionError
      else
        (case api_days_loop current_date settings' subject_data days_available
                [0..<nat days_available] (hours_remaining, schedule) of
           Inl e \<Rightarrow> Inl e
         | Inr (hours_remaining, schedule) \<Rightarrow>
             api_subjects_loop current_date settings' rest schedule))"

text \<open>
  \<open>generate_optimized_schedule(subjects, settings)\<close> of \<open>api.py\<close>, with
  \<open>datetime.now().date()\<close> passed in as \<open>today\<close>. \<open>list.sort(reverse=True)\<close> and
  \<open>sorted\<close> are stable.
\<close>

definition generate_optimized_schedule_api ::
  "int \<Rightarrow> scheduler_subject list \<Rightarrow> settings \<Rightarrow> py_error + api_entry list" where
  "generate_optimized_schedule_api today subjects settings' =
     (let subjects_dict =
            sort_key (\<lambda>x. - snd x)
              (map (\<lambda>s. (s, calculate_priority_score_tiered today s)) subjects)
      in case api_subjects_loop today settings' subjects_dict [] of
           Inl e \<Rightarrow> Inl e
         | Inr schedule \<Rightarrow> Inr (sort_key (\<lambda>x. (date x, start_time x)) schedule))"

section \<open>Properties\<close>

text \<open>
  C4. The weighted-blend scorer of \<open>src/app.py\<close> never raises and returns
  \<open>0.4 * urgency + 0.3 * (difficulty / 5) + 0.3 * (importance / 5)\<close>, where the urgency is
  10 when \<open>(deadline - today).days \<le> 0\<close>, however negative, and \<open>1 / days\<close> otherwise.
\<close>

theorem priority_score_weighted_blend:
  "calculate_priority_score today deadline' difficulty' importance' =
     Inr ((4 / 10) * (if deadline' - today \<le> 0 then 10 else 1 / of_int (deadline' - today)) +
          (3 / 10) * (of_int difficulty' / 5) +
          (3 / 10) * (of_int importance' / 5))"
  by (simp add: calculate_priority_score_def truediv_def Let_def)



subsection \<open>The allocator of \<open>src/app.py\<close>\<close>

lemma calculate_priority_score_blend:
  "calculate_priority_score today (deadline s) (difficulty s) (importance s) = Inr (blend today s)"
  by (simp add: calculate_priority_score_def truediv_def blend_def Let_def)

lemma score_subjects_map: "score_subjects today ss = Inr (map (set_score today) ss)"
  by (induction ss) (simp_all add: calculate_priority_score_blend set_score_def)

lemma score_of_set_score: "score_of (set_score today s) = blend today s"
  by (simp add: score_of_def set_score_def)

lemma blend_pos: "0 \<le> difficulty s \<Longrightarrow> 0 \<le> importance s \<Longrightarrow> 0 < blend today s"
proof -
  assume d: "0 \<le> difficulty s" and i: "0 \<le> importance s"
  have u: "0 < (if deadline s - today \<le> 0 then 10 else 1 / rat_of_int (deadline s - today))"
    by simp
  have "0 \<le> rat_of_int (difficulty s) / 5 * (3 / 10)" using d by simp
  moreover have "0 \<le> rat_of_int (importance s) / 5 * (3 / 10)" using i by simp
  moreover have "0 < (if deadline s - today \<le> 0 then 10 else 1 / rat_of_int (deadline s - today)) * (4 / 10)"
    using u by simp
  ultimately show ?thesis unfolding blend_def by linarith
qed

lemma round_half_even_nonneg: "0 \<le> y \<Longrightarrow> 0 \<le> round_half_even y"
  by (auto simp: round_half_even_def Let_def)

lemma py_round1_nonneg: "0 \<le> x \<Longrightarrow> 0 \<le> py_round1 x"
  by (simp add: py_round1_def round_half_even_nonneg)

lemma update_fresh: "k \<notin> fst ` set al \<Longrightarrow> AList.update k v al = al @ [(k, v)]"
  by (induction al) auto

lemma distribute_loop_total:
  "total_priority \<noteq> 0 \<Longrightarrow> \<exists>d. distribute_loop total_priority tdh ss r al = Inr d"
  by (induction ss arbitrary: r al) (auto simp: truediv_def Let_def)

lemma clamp_hours_range: "clamp_hours h r = 0 \<or> 1 / 2 \<le> clamp_hours h r"
proof (cases "0 < r")
  case True
  have "(1 / 2 :: rat) \<le> max (1 / 2) (min h (r + 1 / 2))"
    by (rule max.cobounded1)
  then show ?thesis using True by (simp only: clamp_hours_def if_True simp_thms)
next
  case False
  then show ?thesis by (simp only: clamp_hours_def if_False simp_thms)
qed

lemma clamp_hours_nonneg: "0 \<le> clamp_hours h r"
  using clamp_hours_range [of h r] by auto

lemma clamp_last_step: "clamp_hours r r \<le> max r 0 + 1 / 2"
  by (simp add: clamp_hours_def)

lemma clamp_mid_step: "0 \<le> h \<Longrightarrow> clamp_hours h (r - h) + max (r - h) 0 \<le> max r 0 + 1 / 2"
  by (auto simp: clamp_hours_def max_def min_def)

lemma distribute_loop_step:
  "rest \<noteq> [] \<Longrightarrow> tp \<noteq> 0 \<Longrightarrow>
   distribute_loop tp tdh (s # rest) r al =
     distribute_loop tp tdh rest (r - py_round1 (score_of s / tp * tdh))
       (AList.update (name s)
          (clamp_hours (py_round1 (score_of s / tp * tdh)) (r - py_round1 (score_of s / tp * tdh))) al)"
  by (simp add: truediv_def clamp_hours_def Let_def)

lemma distribute_loop_last:
  "distribute_loop tp tdh [s] r al = Inr (AList.update (name s) (clamp_hours r r) al)"
  by (simp add: clamp_hours_def Let_def)

lemma distribute_loop_bound:
  assumes "0 < tp" "0 \<le> tdh" "\<forall>s\<in>set ss. 0 \<le> score_of s" "distinct (map name ss)"
    "name ` set ss \<inter> fst ` set al = {}"
    "distribute_loop tp tdh ss r al = Inr res"
  shows "map fst res = map fst al @ map name ss \<and>
         (\<forall>h\<in>set (map snd res). h \<in> set (map snd al) \<or> h = 0 \<or> 1 / 2 \<le> h) \<and>
         sum_list (map snd res) \<le> sum_list (map snd al) + max r 0 + of_nat (length ss) / 2"
  using assms
proof (induction ss arbitrary: r al)
  case Nil
  then show ?case by simp
next
  case (Cons s rest)
  have fresh: "name s \<notin> fst ` set al" using Cons.prems(5) by auto
  show ?case
  proof (cases "rest = []")
    case True
    have res: "res = al @ [(name s, clamp_hours r r)]"
      using Cons.prems(6) True fresh
      by (simp del: distribute_loop.simps add: distribute_loop_last update_fresh)
    show ?thesis
      using clamp_hours_range [of r r] clamp_last_step [of r] by (auto simp: res True)
  next
    case False
    define h where "h = py_round1 (score_of s / tp * tdh)"
    have h0: "0 \<le> h"
      unfolding h_def using Cons.prems(1,2,3) by (intro py_round1_nonneg) simp
    define al' where "al' = al @ [(name s, clamp_hours h (r - h))]"
    have run: "distribute_loop tp tdh rest (r - h) al' = Inr res"
      using Cons.prems(1,6) False fresh
      by (simp del: distribute_loop.simps add: distribute_loop_step update_fresh h_def al'_def)
    have disj: "name ` set rest \<inter> fst ` set al' = {}"
      using Cons.prems(4,5) by (auto simp: al'_def)
    have IH: "map fst res = map fst al' @ map name rest \<and>
         (\<forall>x\<in>set (map snd res). x \<in> set (map snd al') \<or> x = 0 \<or> 1 / 2 \<le> x) \<and>
         sum_list (map snd res) \<le> sum_list (map snd al') + max (r - h) 0 + of_nat (length rest) / 2"
      using Cons.IH [OF Cons.prems(1,2) _ _ disj run] Cons.prems(3,4) by simp
    have s1: "map fst res = map fst al @ map name (s # rest)"
      using IH by (simp add: al'_def)
    have s2: "\<forall>x\<in>set (map snd res). x \<in> set (map snd al) \<or> x = 0 \<or> 1 / 2 \<le> x"
      using IH clamp_hours_range [of h "r - h"] by (auto simp: al'_def)
    have "sum_list (map snd al') + max (r - h) 0 \<le> sum_list (map snd al) + max r 0 + 1 / 2"
      using clamp_mid_step [OF h0, of r] by (simp add: al'_def)
    then have s3: "sum_list (map snd res) \<le>
        sum_list (map snd al) + max r 0 + of_nat (length (s # rest)) / 2"
      using IH by (simp add: field_simps)
    show ?thesis using s1 s2 s3 by blast
  qed
qed


lemma insort_key_map_inv:
  "(\<And>x. k (g x) = k x) \<Longrightarrow> insort_key k (g x) (map g ys) = map g (insort_key k x ys)"
  by (induction ys) simp_all

lemma sort_key_map_inv:
  "(\<And>x. k (g x) = k x) \<Longrightarrow> sort_key k (map g xs) = map g (sort_key k xs)"
  by (induction xs) (simp_all add: insort_key_map_inv)

lemma distribute_loop_map_inv:
  "(\<And>x. score_of (g x) = score_of x) \<Longrightarrow> (\<And>x. name (g x) = name x) \<Longrightarrow>
   distribute_loop tp tdh (map g ss) r al = distribute_loop tp tdh ss r al"
  by (induction ss arbitrary: r al) (auto simp: Let_def split: sum.splits)

lemma sum_list_insort_key:
  "sum_list (map f (insort_key k x xs)) = (f x :: rat) + sum_list (map f xs)"
  by (induction xs) simp_all

lemma sum_list_sort_key: "sum_list (map f (sort_key k xs)) = (sum_list (map f xs) :: rat)"
  by (induction xs) (simp_all add: sum_list_insort_key)

lemma distinct_map_insort_key:
  "distinct (map f (insort_key k x xs)) = (f x \<notin> f ` set xs \<and> distinct (map f xs))"
  by (induction xs) (auto simp: set_insort_key)

lemma distinct_map_sort_key: "distinct (map f (sort_key k xs)) = distinct (map f xs)"
  by (induction xs) (simp_all add: distinct_map_insort_key)

lemma distribute_study_hours_eq:
  "subjects \<noteq> [] \<Longrightarrow>
   distribute_study_hours today subjects daily =
     (case distribute_loop (sum_list (map (blend today) subjects)) (of_int daily)
             (sort_key (\<lambda>x. - score_of x) (map (set_score today) subjects)) (of_int daily) [] of
        Inl e \<Rightarrow> Inl e
      | Inr hour_distribution \<Rightarrow> Inr (map (set_score today) subjects, hour_distribution))"
proof -
  have "sum_list (map score_of (sort_key (\<lambda>x. - score_of x) (map (set_score today) subjects))) =
        sum_list (map (blend today) subjects)"
    by (simp add: sum_list_sort_key o_def score_of_set_score)
  then show ?thesis
    by (simp add: distribute_study_hours_def score_subjects_map Let_def)
qed

lemma allocation_eq:
  "subjects \<noteq> [] \<Longrightarrow>
   allocation today subjects daily =
     distribute_loop (sum_list (map (blend today) subjects)) (of_int daily)
       (sort_key (\<lambda>x. - score_of x) (map (set_score today) subjects)) (of_int daily) []"
  by (simp add: allocation_def distribute_study_hours_eq split: sum.splits)

lemma allocation_study_hours_const:
  "allocation today (map (\<lambda>s. s\<lparr>study_hours := h\<rparr>) subjects) total_daily_hours =
   allocation today subjects total_daily_hours"
proof (cases "subjects = []")
  case True
  then show ?thesis by (simp add: allocation_def distribute_study_hours_def)
next
  case False
  let ?g = "\<lambda>s. s\<lparr>study_hours := h\<rparr>"
  have b: "\<And>s. blend today (?g s) = blend today s" by (simp add: blend_def)
  have c: "map (set_score today) (map ?g subjects) = map ?g (map (set_score today) subjects)"
    by (simp add: set_score_def blend_def)
  have k: "\<And>x. - score_of (?g x) = - score_of x" by (simp add: score_of_def)
  have "distribute_loop (sum_list (map (blend today) subjects)) (of_int total_daily_hours)
          (sort_key (\<lambda>x. - score_of x) (map (set_score today) (map ?g subjects)))
          (of_int total_daily_hours) [] =
        distribute_loop (sum_list (map (blend today) subjects)) (of_int total_daily_hours)
          (sort_key (\<lambda>x. - score_of x) (map (set_score today) subjects))
          (of_int total_daily_hours) []"
    unfolding c sort_key_map_inv [of "\<lambda>x. - score_of x" ?g, OF k]
    by (rule distribute_loop_map_inv) (simp_all add: score_of_def)
  moreover have "sum_list (map (blend today) (map ?g subjects)) = sum_list (map (blend today) subjects)"
    by (simp add: b o_def)
  moreover have ne: "map ?g subjects \<noteq> []" using False by simp
  ultimately show ?thesis
    by (simp only: allocation_eq [OF False] allocation_eq [OF ne])
qed

subsection \<open>The daily schedule of \<open>src/app.py\<close>\<close>

lemma session_blocks_off:
  "\<not> (0 < tm \<and> 0 < sl) \<Longrightarrow> session_blocks d s sl bl tm ct = []"
  by (subst session_blocks.simps) simp

lemma session_blocks_last:
  "0 < tm \<Longrightarrow> tm \<le> sl \<Longrightarrow>
   session_blocks d s sl bl tm ct =
     [\<lparr>date = d, start_time = strftime_HM ct, end_time = strftime_HM (ct + tm),
       subject = s, type = Study, duration = tm\<rparr>]"
  by (subst session_blocks.simps) (simp add: min_def)

lemma session_blocks_more:
  "0 < sl \<Longrightarrow> sl < tm \<Longrightarrow>
   session_blocks d s sl bl tm ct =
     \<lparr>date = d, start_time = strftime_HM ct, end_time = strftime_HM (ct + sl),
       subject = s, type = Study, duration = sl\<rparr> #
     \<lparr>date = d, start_time = strftime_HM (ct + sl), end_time = strftime_HM (ct + sl + bl),
       subject = ''Break'', type = Break, duration = bl\<rparr> #
     session_blocks d s sl bl (tm - sl) (ct + sl + bl)"
  by (subst session_blocks.simps) (simp add: min_def)

lemma session_blocks_cases:
  fixes tm sl :: int
  obtains (off) "\<not> (0 < tm \<and> 0 < sl)" | (last) "0 < tm" "tm \<le> sl" | (more) "0 < sl" "sl < tm"
  by fastforce

lemma session_blocks_nonempty:
  "0 < tm \<Longrightarrow> 0 < sl \<Longrightarrow> session_blocks d s sl bl tm ct \<noteq> []"
  by (cases tm sl rule: session_blocks_cases)
     (simp_all add: session_blocks_last session_blocks_more)

lemma session_blocks_durations:
  "0 \<le> bl \<Longrightarrow> \<forall>e\<in>set (session_blocks d s sl bl tm ct). 0 \<le> duration e"
proof (induction d s sl bl tm ct rule: session_blocks.induct)
  case (1 d s sl bl tm ct)
  show ?case
    using "1.IH" "1.prems" by (subst session_blocks.simps) auto
qed

lemma day_blocks_durations:
  "0 \<le> bl \<Longrightarrow> \<forall>e\<in>set (day_blocks d sl bl al ct). 0 \<le> duration e"
  by (induction d sl bl al ct rule: day_blocks.induct)
     (auto simp: session_blocks_durations)

lemma session_blocks_sum_nonneg:
  "0 \<le> bl \<Longrightarrow> 0 \<le> sum_list (map duration (session_blocks d s sl bl tm ct))"
  using session_blocks_durations [of bl d s sl tm ct] by (intro sum_list_nonneg) auto

lemma day_blocks_sum_nonneg:
  "0 \<le> bl \<Longrightarrow> 0 \<le> sum_list (map duration (day_blocks d sl bl al ct))"
  using day_blocks_durations [of bl d sl al ct] by (intro sum_list_nonneg) auto

lemma study_sessions_done:
  "tm \<le> 0 \<Longrightarrow> study_sessions d s sl bl tm ct ds = Some (Inr (ct, ds))"
  by (subst study_sessions.simps) simp

lemma study_sessions_last:
  "0 < tm \<Longrightarrow> tm \<le> sl \<Longrightarrow>
   study_sessions d s sl bl tm ct ds =
     (if \<not> datetime_in_range d (ct + tm) then Some (Inl OverflowError)
      else Some (Inr (ct + tm,
             ds @ [\<lparr>date = d, start_time = strftime_HM ct, end_time = strftime_HM (ct + tm),
                    subject = s, type = Study, duration = tm\<rparr>])))"
  by (subst study_sessions.simps) (simp add: Let_def min_def study_sessions_done)

lemma study_sessions_more:
  "0 < sl \<Longrightarrow> sl < tm \<Longrightarrow>
   study_sessions d s sl bl tm ct ds =
     (if \<not> datetime_in_range d (ct + sl) \<or> \<not> datetime_in_range d (ct + sl + bl)
      then Some (Inl OverflowError)
      else study_sessions d s sl bl (tm - sl) (ct + sl + bl)
             (ds @
              [\<lparr>date = d, start_time = strftime_HM ct, end_time = strftime_HM (ct + sl),
                 subject = s, type = Study, duration = sl\<rparr>,
               \<lparr>date = d, start_time = strftime_HM (ct + sl),
                 end_time = strftime_HM (ct + sl + bl),
                 subject = ''Break'', type = Break, duration = bl\<rparr>]))"
  by (subst study_sessions.simps) (simp add: Let_def min_def)

text \<open>
  With a positive session length the \<open>while\<close> loop ends: it raises \<open>OverflowError\<close> or
  appends the blocks of \<open>session_blocks\<close>.
\<close>

lemma study_sessions_blocks:
  "0 < sl \<Longrightarrow>
   study_sessions d s sl bl tm ct ds = Some (Inl OverflowError) \<or>
   study_sessions d s sl bl tm ct ds =
     Some (Inr (ct + sum_list (map duration (session_blocks d s sl bl tm ct)),
                ds @ session_blocks d s sl bl tm ct))"
proof (induction "nat tm" arbitrary: tm ct ds rule: less_induct)
  case less
  show ?case
  proof (cases tm sl rule: session_blocks_cases)
    case off
    then have "tm \<le> 0" using less.prems by simp
    then show ?thesis using off by (simp add: study_sessions_done session_blocks_off)
  next
    case last
    then show ?thesis by (simp add: study_sessions_last session_blocks_last)
  next
    case more
    have "nat (tm - sl) < nat tm" using more by simp
    from less.hyps [OF this less.prems, of "ct + sl + bl"
        "ds @
         [\<lparr>date = d, start_time = strftime_HM ct, end_time = strftime_HM (ct + sl),
            subject = s, type = Study, duration = sl\<rparr>,
          \<lparr>date = d, start_time = strftime_HM (ct + sl),
            end_time = strftime_HM (ct + sl + bl),
            subject = ''Break'', type = Break, duration = bl\<rparr>]"] more
    show ?thesis
      by (simp add: study_sessions_more session_blocks_more add.assoc)
  qed
qed

text \<open>It does not raise when the clock stays within the range of \<open>datetime\<close>.\<close>

lemma study_sessions_in_range:
  "0 < sl \<Longrightarrow> 0 \<le> bl \<Longrightarrow> 1440 \<le> d * 1440 + ct \<Longrightarrow>
   d * 1440 + ct + sum_list (map duration (session_blocks d s sl bl tm ct)) < 3652060 * 1440 \<Longrightarrow>
   study_sessions d s sl bl tm ct ds =
     Some (Inr (ct + sum_list (map duration (session_blocks d s sl bl tm ct)),
                ds @ session_blocks d s sl bl tm ct))"
proof (induction "nat tm" arbitrary: tm ct ds rule: less_induct)
  case less
  show ?case
  proof (cases tm sl rule: session_blocks_cases)
    case off
    then have "tm \<le> 0" using less.prems by simp
    then show ?thesis using off by (simp add: study_sessions_done session_blocks_off)
  next
    case last
    then show ?thesis using less.prems
      by (simp add: study_sessions_last session_blocks_last datetime_in_range_def)
  next
    case more
    have n: "nat (tm - sl) < nat tm" using more by simp
    have r: "0 \<le> sum_list (map duration (session_blocks d s sl bl (tm - sl) (ct + sl + bl)))"
      using less.prems(2) by (rule session_blocks_sum_nonneg)
    have b: "d * 1440 + ct + sl + bl +
             sum_list (map duration (session_blocks d s sl bl (tm - sl) (ct + sl + bl)))
             < 3652060 * 1440"
      using less.prems(4) more by (simp add: session_blocks_more)
    have 1: "1440 \<le> d * 1440 + (ct + sl + bl)" using less.prems more by simp
    have 2: "d * 1440 + (ct + sl + bl) +
             sum_list (map duration (session_blocks d s sl bl (tm - sl) (ct + sl + bl)))
             < 3652060 * 1440" using b by simp
    have i: "datetime_in_range d (ct + sl)" "datetime_in_range d (ct + sl + bl)"
      using less.prems(2,3) more r b by (simp_all add: datetime_in_range_def)
    from less.hyps [OF n less.prems(1,2) 1 2, of
        "ds @
         [\<lparr>date = d, start_time = strftime_HM ct, end_time = strftime_HM (ct + sl),
            subject = s, type = Study, duration = sl\<rparr>,
          \<lparr>date = d, start_time = strftime_HM (ct + sl),
            end_time = strftime_HM (ct + sl + bl),
            subject = ''Break'', type = Break, duration = bl\<rparr>]"] i more
    show ?thesis
      by (simp add: study_sessions_more session_blocks_more add.assoc)
  qed
qed

lemma subjects_loop_blocks:
  "0 < sl \<Longrightarrow>
   subjects_loop d sl bl al ct ds = Some (Inl OverflowError) \<or>
   subjects_loop d sl bl al ct ds =
     Some (Inr (ct + sum_list (map duration (day_blocks d sl bl al ct)),
                ds @ day_blocks d sl bl al ct))"
proof (induction d sl bl al ct arbitrary: ds rule: day_blocks.induct)
  case (1 d sl bl ct)
  then show ?case by simp
next
  case (2 d sl bl s hours rest ct)
  show ?case
  proof (cases "hours > 0")
    case False
    then show ?thesis using 2 by simp
  next
    case True
    from study_sessions_blocks [OF "2.prems", of d s bl "py_int (hours * 60)" ct ds]
    show ?thesis
    proof
      assume "study_sessions d s sl bl (py_int (hours * 60)) ct ds = Some (Inl OverflowError)"
      then show ?thesis using True by simp
    next
      assume a: "study_sessions d s sl bl (py_int (hours * 60)) ct ds =
        Some (Inr (ct + sum_list (map duration (session_blocks d s sl bl (py_int (hours * 60)) ct)),
                   ds @ session_blocks d s sl bl (py_int (hours * 60)) ct))"
      from "2.IH"(1) [OF True "2.prems",
          of "ds @ session_blocks d s sl bl (py_int (hours * 60)) ct"]
      show ?thesis using True a by (simp add: add.assoc)
    qed
  qed
qed

lemma subjects_loop_in_range:
  "0 < sl \<Longrightarrow> 0 \<le> bl \<Longrightarrow> 1440 \<le> d * 1440 + ct \<Longrightarrow>
   d * 1440 + ct + sum_list (map duration (day_blocks d sl bl al ct)) < 3652060 * 1440 \<Longrightarrow>
   subjects_loop d sl bl al ct ds =
     Some (Inr (ct + sum_list (map duration (day_blocks d sl bl al ct)),
                ds @ day_blocks d sl bl al ct))"
proof (induction d sl bl al ct arbitrary: ds rule: day_blocks.induct)
  case (1 d sl bl ct)
  then show ?case by simp
next
  case (2 d sl bl s hours rest ct)
  show ?case
  proof (cases "hours > 0")
    case False
    then show ?thesis using 2 by simp
  next
    case True
    let ?b = "session_blocks d s sl bl (py_int (hours * 60)) ct"
    let ?r = "day_blocks d sl bl rest (ct + sum_list (map duration ?b))"
    have b: "0 \<le> sum_list (map duration ?b)" using "2.prems"(2) by (rule session_blocks_sum_nonneg)
    have r: "0 \<le> sum_list (map duration ?r)" using "2.prems"(2) by (rule day_blocks_sum_nonneg)
    have t: "d * 1440 + ct + sum_list (map duration ?b) + sum_list (map duration ?r) < 3652060 * 1440"
      using "2.prems"(4) True by simp
    have s: "study_sessions d s sl bl (py_int (hours * 60)) ct ds =
               Some (Inr (ct + sum_list (map duration ?b), ds @ ?b))"
      using "2.prems"(1,2,3) t r by (intro study_sessions_in_range) simp_all
    have 1: "1440 \<le> d * 1440 + (ct + sum_list (map duration ?b))" using "2.prems"(3) b by simp
    have 2: "d * 1440 + (ct + sum_list (map duration ?b)) + sum_list (map duration ?r) < 3652060 * 1440"
      using t by simp
    from "2.IH"(1) [OF True "2.prems"(1,2) 1 2, of "ds @ ?b"] s True show ?thesis
      by (simp add: add.assoc)
  qed
qed

lemma create_daily_schedule_blocks:
  assumes "0 < sl" "create_daily_schedule d al sl bl (h, m) = Some (Inr ds)"
  shows "ds = day_blocks d sl bl al (h * 60 + m) \<and> 0 \<le> h \<and> h < 24 \<and> 0 \<le> m \<and> m < 60"
  using assms subjects_loop_blocks [OF assms(1), of d bl al "h * 60 + m" "[]"]
  by (auto simp: create_daily_schedule_def split: if_splits)

lemma create_daily_schedule_in_range:
  assumes "0 < sl" "0 \<le> bl" "0 \<le> h" "h < 24" "0 \<le> m" "m < 60" "1 \<le> d"
    "d * 1440 + (h * 60 + m) + sum_list (map duration (day_blocks d sl bl al (h * 60 + m)))
       < 3652060 * 1440"
  shows "create_daily_schedule d al sl bl (h, m) = Some (Inr (day_blocks d sl bl al (h * 60 + m)))"
proof -
  have "1440 \<le> d * 1440 + (h * 60 + m)" using assms(3,5,7) by simp
  from subjects_loop_in_range [OF assms(1,2) this assms(8), of "[]"] assms(3-6)
  show ?thesis by (simp add: create_daily_schedule_def)
qed

lemma chain_append:
  "chain t (xs @ ys) = (chain t xs \<and> chain (t + sum_list (map duration xs)) ys)"
  by (induction xs arbitrary: t) (auto simp: add.assoc)

lemma chain_session_blocks: "chain ct (session_blocks d s sl bl tm ct)"
proof (induction d s sl bl tm ct rule: session_blocks.induct)
  case (1 d s sl bl tm ct)
  show ?case
    using "1.IH" by (subst session_blocks.simps) (simp add: add.assoc)
qed

lemma chain_day_blocks: "chain ct (day_blocks d sl bl al ct)"
  by (induction d sl bl al ct rule: day_blocks.induct)
     (simp_all add: chain_append chain_session_blocks)

lemma chain_contiguous: "chain t es \<Longrightarrow> contiguous_from (strftime_HM t) es"
proof (induction es arbitrary: t)
  case Nil
  then show ?case by simp
next
  case (Cons e es)
  have "(t mod 1440 + duration e) mod 1440 = (t + duration e) mod 1440"
    by (simp add: mod_add_left_eq)
  then show ?case using Cons by (simp add: strftime_HM_def)
qed

lemma chain_starts_after:
  "chain t es \<Longrightarrow> \<forall>e\<in>set es. 0 \<le> duration e \<Longrightarrow> 0 \<le> t \<Longrightarrow>
   t + sum_list (map duration es) < 1440 \<Longrightarrow>
   \<forall>e\<in>set es. t \<le> start_time e \<and> start_time e \<le> end_time e"
proof (induction es arbitrary: t)
  case Nil
  then show ?case by simp
next
  case (Cons e es)
  have s: "0 \<le> sum_list (map duration es)"
    using Cons.prems(2) by (intro sum_list_nonneg) auto
  have d: "0 \<le> duration e" using Cons.prems(2) by simp
  have st: "start_time e = t" using Cons.prems(1,3,4) s d by (simp add: strftime_HM_def)
  have en: "end_time e = t + duration e" using Cons.prems(1,3,4) s d by (simp add: strftime_HM_def)
  have "\<forall>x\<in>set es. t + duration e \<le> start_time x \<and> start_time x \<le> end_time x"
    using Cons.IH [of "t + duration e"] Cons.prems d by (simp add: add.assoc)
  then show ?case using st en d by auto
qed

lemma chain_sorted:
  "chain t es \<Longrightarrow> \<forall>e\<in>set es. 0 \<le> duration e \<Longrightarrow> 0 \<le> t \<Longrightarrow>
   t + sum_list (map duration es) < 1440 \<Longrightarrow>
   sorted_wrt (\<lambda>a b. end_time a \<le> start_time b) es \<and> sorted (map start_time es)"
proof (induction es arbitrary: t)
  case Nil
  then show ?case by simp
next
  case (Cons e es)
  have s: "0 \<le> sum_list (map duration es)"
    using Cons.prems(2) by (intro sum_list_nonneg) auto
  have d: "0 \<le> duration e" using Cons.prems(2) by simp
  have st: "start_time e = t" using Cons.prems(1,3,4) s d by (simp add: strftime_HM_def)
  have en: "end_time e = t + duration e" using Cons.prems(1,3,4) s d by (simp add: strftime_HM_def)
  have later: "\<forall>x\<in>set es. t + duration e \<le> start_time x \<and> start_time x \<le> end_time x"
    using chain_starts_after [of "t + duration e" es] Cons.prems d by (simp add: add.assoc)
  have IH: "sorted_wrt (\<lambda>a b. end_time a \<le> start_time b) es \<and> sorted (map start_time es)"
    using Cons.IH [of "t + duration e"] Cons.prems d by (simp add: add.assoc)
  show ?case using IH later st en d by auto
qed

lemma session_blocks_shape:
  "session_blocks d s sl bl tm ct \<noteq> [] \<Longrightarrow>
     type (hd (session_blocks d s sl bl tm ct)) = Study \<and>
     subject (hd (session_blocks d s sl bl tm ct)) = s \<and>
     type (last (session_blocks d s sl bl tm ct)) = Study \<and>
     subject (last (session_blocks d s sl bl tm ct)) = s"
proof (induction "nat tm" arbitrary: tm ct rule: less_induct)
  case less
  show ?case
  proof (cases tm sl rule: session_blocks_cases)
    case off
    then show ?thesis using less.prems by (simp add: session_blocks_off)
  next
    case last
    then show ?thesis by (simp add: session_blocks_last)
  next
    case more
    have ne: "session_blocks d s sl bl (tm - sl) (ct + sl + bl) \<noteq> []"
      using more by (intro session_blocks_nonempty) simp_all
    have "nat (tm - sl) < nat tm" using more by simp
    from less.hyps [OF this ne] ne more show ?thesis
      by (simp add: session_blocks_more)
  qed
qed

lemma session_blocks_break_after_study:
  "break_after_every_study bl (session_blocks d s sl bl tm ct)"
proof (induction "nat tm" arbitrary: tm ct rule: less_induct)
  case less
  show ?case
  proof (cases tm sl rule: session_blocks_cases)
    case off
    then show ?thesis by (simp add: session_blocks_off)
  next
    case last
    then show ?thesis by (simp add: session_blocks_last)
  next
    case more
    obtain x xs where ne: "session_blocks d s sl bl (tm - sl) (ct + sl + bl) = x # xs"
      using session_blocks_nonempty [of "tm - sl" sl d s bl "ct + sl + bl"] more
      by (cases "session_blocks d s sl bl (tm - sl) (ct + sl + bl)") auto
    have "nat (tm - sl) < nat tm" using more by simp
    from less.hyps [OF this, of "ct + sl + bl"] ne more show ?thesis
      by (simp add: session_blocks_more)
  qed
qed

lemma contiguous_ends:
  "contiguous_from t es \<Longrightarrow> \<forall>e\<in>set es. end_time e = (start_time e + duration e) mod 1440"
  by (induction es arbitrary: t) auto

lemma day_blocks_single_break_after:
  "break_after_every_study bl (day_blocks d sl bl [(s, hours)] ct)"
  by (simp add: session_blocks_break_after_study)

lemma study_total_append: "study_total (xs @ ys) = study_total xs + study_total ys"
  by (simp add: study_total_def)

lemma session_blocks_study_total:
  "0 < sl \<Longrightarrow> study_total (session_blocks d s sl bl tm ct) = max 0 tm"
proof (induction "nat tm" arbitrary: tm ct rule: less_induct)
  case less
  show ?case
  proof (cases tm sl rule: session_blocks_cases)
    case off
    then show ?thesis using less.prems by (simp add: session_blocks_off study_total_def)
  next
    case last
    then show ?thesis by (simp add: session_blocks_last study_total_def)
  next
    case more
    have "nat (tm - sl) < nat tm" using more by simp
    from less.hyps [OF this less.prems, of "ct + sl + bl"] more show ?thesis
      by (simp add: session_blocks_more study_total_def)
  qed
qed

lemma py_int_nonneg: "0 \<le> x \<Longrightarrow> 0 \<le> py_int x"
  by (simp add: py_int_def)

lemma day_blocks_study_total:
  "0 < sl \<Longrightarrow> study_total (day_blocks d sl bl al ct) = allocated_minutes al"
proof (induction d sl bl al ct rule: day_blocks.induct)
  case (1 d sl bl ct)
  then show ?case by (simp add: study_total_def allocated_minutes_def)
next
  case (2 d sl bl s hours rest ct)
  show ?case
  proof (cases "hours > 0")
    case True
    then have "0 \<le> py_int (hours * 60)" by (intro py_int_nonneg) simp
    then show ?thesis
      using 2 True
      by (simp add: study_total_append session_blocks_study_total allocated_minutes_def)
  next
    case False
    then show ?thesis using 2 by (simp add: allocated_minutes_def)
  qed
qed

subsection \<open>The window of \<open>generate_schedule\<close> of \<open>src/app.py\<close>\<close>

lemma session_blocks_sum_bound:
  "0 < sl \<Longrightarrow> 0 \<le> bl \<Longrightarrow>
   sum_list (map duration (session_blocks d s sl bl tm ct)) \<le> max 0 tm * (1 + bl)"
proof (induction "nat tm" arbitrary: tm ct rule: less_induct)
  case less
  show ?case
  proof (cases tm sl rule: session_blocks_cases)
    case off
    then have "tm \<le> 0" using less.prems by simp
    then show ?thesis using off by (simp add: session_blocks_off)
  next
    case last
    have "0 \<le> tm * bl" using last less.prems by simp
    then show ?thesis using last by (simp add: session_blocks_last algebra_simps)
  next
    case more
    have n: "nat (tm - sl) < nat tm" using more by simp
    have "1 * bl \<le> sl * bl" using more less.prems by (intro mult_right_mono) simp_all
    then have b: "bl \<le> sl * bl" by simp
    have "sum_list (map duration (session_blocks d s sl bl (tm - sl) (ct + sl + bl)))
            \<le> max 0 (tm - sl) * (1 + bl)"
      using less.hyps [OF n less.prems] .
    also have "\<dots> = (tm - sl) * (1 + bl)" using more by simp
    finally have "sl + bl + sum_list (map duration (session_blocks d s sl bl (tm - sl) (ct + sl + bl)))
        \<le> sl + bl + (tm - sl) * (1 + bl)" by simp
    also have "\<dots> \<le> tm * (1 + bl)" using b by (simp add: algebra_simps)
    finally show ?thesis using more by (simp add: session_blocks_more add.assoc)
  qed
qed

lemma allocated_minutes_nonneg: "0 \<le> allocated_minutes al"
  unfolding allocated_minutes_def
  by (intro sum_list_nonneg) (auto simp: py_int_nonneg)

lemma allocated_minutes_Cons:
  "allocated_minutes ((s, hours) # rest) =
     (if hours > 0 then py_int (hours * 60) else 0) + allocated_minutes rest"
  by (simp add: allocated_minutes_def)

lemma day_blocks_sum_bound:
  "0 < sl \<Longrightarrow> 0 \<le> bl \<Longrightarrow>
   sum_list (map duration (day_blocks d sl bl al ct)) \<le> allocated_minutes al * (1 + bl)"
proof (induction d sl bl al ct rule: day_blocks.induct)
  case (1 d sl bl ct)
  then show ?case by (simp add: allocated_minutes_def)
next
  case (2 d sl bl s hours rest ct)
  show ?case
  proof (cases "hours > 0")
    case False
    then show ?thesis using 2 by (simp add: allocated_minutes_Cons)
  next
    case True
    let ?tm = "py_int (hours * 60)"
    have "0 \<le> ?tm" using True by (intro py_int_nonneg) simp
    then have "sum_list (map duration (session_blocks d s sl bl ?tm ct)) \<le> ?tm * (1 + bl)"
      using session_blocks_sum_bound [OF "2.prems", of d s ?tm ct] by simp
    moreover have "sum_list (map duration (day_blocks d sl bl rest
        (ct + sum_list (map duration (session_blocks d s sl bl ?tm ct)))))
        \<le> allocated_minutes rest * (1 + bl)"
      using "2.IH"(1) [OF True "2.prems"] .
    ultimately show ?thesis using True
      by (simp add: allocated_minutes_Cons algebra_simps)
  qed
qed

lemma py_int_le: "0 \<le> x \<Longrightarrow> of_int (py_int x) \<le> x"
  by (simp add: py_int_def)

lemma allocated_minutes_le:
  "\<forall>h\<in>set (map snd al). 0 \<le> h \<Longrightarrow>
   of_int (allocated_minutes al) \<le> 60 * sum_list (map snd al)"
proof (induction al)
  case Nil
  then show ?case by (simp add: allocated_minutes_def)
next
  case (Cons x al)
  obtain s hours where x: "x = (s, hours)" by (cases x)
  have h: "0 \<le> hours" using Cons.prems x by simp
  have "of_int (py_int (hours * 60)) \<le> hours * 60" using h by (intro py_int_le) simp
  moreover have "of_int (allocated_minutes al) \<le> 60 * sum_list (map snd al)"
    using Cons by simp
  ultimately show ?case using h x by (simp add: allocated_minutes_Cons algebra_simps)
qed





lemma days_loop_in_range:
  assumes "0 < sl" "0 \<le> bl" "0 \<le> fst st" "fst st < 24" "0 \<le> snd st" "snd st < 60"
    "1 \<le> current_date" "max_date + 1 \<le> 3652059"
    "(max_date + 1) * 1440 + allocated_minutes al * (1 + bl) \<le> 3652060 * 1440"
  shows "\<exists>res. days_loop al sl bl st max_date current_date schedule = Some (Inr res)"
  using assms
proof (induction al sl bl st max_date current_date schedule rule: days_loop.induct)
  case (1 al sl bl st max_date current_date schedule)
  show ?case
  proof (cases "current_date \<le> max_date")
    case False
    then show ?thesis by (subst days_loop.simps) simp
  next
    case True
    have r: "date_in_range (current_date + 1)"
      using True "1.prems"(7,8) by (simp add: date_in_range_def)
    have n: "1 \<le> current_date + 1" using "1.prems"(7) by simp
    show ?thesis
    proof (cases "weekday current_date < 5")
      case False
      have "\<exists>res. days_loop al sl bl st max_date (current_date + 1) schedule = Some (Inr res)"
        using "1.IH"(2) True False r "1.prems"(1-6) n "1.prems"(8,9) by simp
      then show ?thesis using True False r by (subst days_loop.simps) simp
    next
      case w: True
      let ?t = "fst st * 60 + snd st"
      let ?ds = "day_blocks current_date sl bl al ?t"
      have "sum_list (map duration ?ds) \<le> allocated_minutes al * (1 + bl)"
        using "1.prems"(1,2) by (rule day_blocks_sum_bound)
      moreover have "current_date * 1440 + ?t < (max_date + 1) * 1440"
        using True "1.prems"(3-6) by simp
      ultimately have "current_date * 1440 + ?t + sum_list (map duration ?ds) < 3652060 * 1440"
        using "1.prems"(9) by simp
      from create_daily_schedule_in_range [OF "1.prems"(1-7) this]
      have ds: "create_daily_schedule current_date al sl bl st = Some (Inr ?ds)" by simp
      have "\<exists>res. days_loop al sl bl st max_date (current_date + 1) (schedule @ ?ds) = Some (Inr res)"
        using "1.IH"(1) True w ds r "1.prems"(1-6) n "1.prems"(8,9) by simp
      then show ?thesis using True w ds r by (subst days_loop.simps) simp
    qed
  qed
qed


lemma update_sum_le:
  fixes v :: rat
  shows "\<forall>h\<in>set (map snd al). 0 \<le> h \<Longrightarrow> 0 \<le> v \<Longrightarrow>
   sum_list (map snd (AList.update k v al)) \<le> sum_list (map snd al) + v"
  by (induction al) auto

lemma update_nonneg:
  fixes v :: rat
  shows "\<forall>h\<in>set (map snd al). 0 \<le> h \<Longrightarrow> 0 \<le> v \<Longrightarrow>
   \<forall>h\<in>set (map snd (AList.update k v al)). 0 \<le> h"
  by (induction al) auto

lemma distribute_loop_sum_bound:
  assumes "0 < tp" "0 \<le> tdh" "\<forall>s\<in>set ss. 0 \<le> score_of s" "\<forall>h\<in>set (map snd al). 0 \<le> h"
    "distribute_loop tp tdh ss r al = Inr res"
  shows "(\<forall>h\<in>set (map snd res). 0 \<le> h) \<and>
         sum_list (map snd res) \<le> sum_list (map snd al) + max r 0 + of_nat (length ss) / 2"
  using assms
proof (induction ss arbitrary: r al)
  case Nil
  then show ?case by simp
next
  case (Cons s rest)
  show ?case
  proof (cases "rest = []")
    case True
    have res: "res = AList.update (name s) (clamp_hours r r) al"
      using Cons.prems(5) True
      by (simp del: distribute_loop.simps add: distribute_loop_last)
    have "sum_list (map snd res) \<le> sum_list (map snd al) + clamp_hours r r"
      unfolding res using Cons.prems(4) clamp_hours_nonneg by (rule update_sum_le)
    moreover have "\<forall>h\<in>set (map snd res). 0 \<le> h"
      unfolding res using Cons.prems(4) clamp_hours_nonneg by (rule update_nonneg)
    ultimately show ?thesis
      using clamp_last_step [of r] True by simp
  next
    case False
    define h where "h = py_round1 (score_of s / tp * tdh)"
    have h0: "0 \<le> h"
      unfolding h_def using Cons.prems(1,2,3) by (intro py_round1_nonneg) simp
    define al' where "al' = AList.update (name s) (clamp_hours h (r - h)) al"
    have run: "distribute_loop tp tdh rest (r - h) al' = Inr res"
      using Cons.prems(1,5) False
      by (simp del: distribute_loop.simps add: distribute_loop_step h_def al'_def)
    have nn: "\<forall>h\<in>set (map snd al'). 0 \<le> h"
      unfolding al'_def using Cons.prems(4) clamp_hours_nonneg by (rule update_nonneg)
    have su: "sum_list (map snd al') \<le> sum_list (map snd al) + clamp_hours h (r - h)"
      unfolding al'_def using Cons.prems(4) clamp_hours_nonneg by (rule update_sum_le)
    have IH: "(\<forall>h\<in>set (map snd res). 0 \<le> h) \<and>
         sum_list (map snd res) \<le> sum_list (map snd al') + max (r - h) 0 + of_nat (length rest) / 2"
      using Cons.IH [OF Cons.prems(1,2) _ nn run] Cons.prems(3) by simp
    have "sum_list (map snd al') + max (r - h) 0 \<le> sum_list (map snd al) + max r 0 + 1 / 2"
      using clamp_mid_step [OF h0, of r] su by simp
    then have "sum_list (map snd res) \<le>
        sum_list (map snd al) + max r 0 + of_nat (length (s # rest)) / 2"
      using IH by (simp add: field_simps)
    then show ?thesis using IH by blast
  qed
qed

lemma distribute_minutes_bound:
  assumes "\<forall>s\<in>set subjects. 0 \<le> difficulty s \<and> 0 \<le> importance s" "0 \<le> tdh"
  shows "\<exists>subjects' al. distribute_study_hours today subjects tdh = Inr (subjects', al) \<and>
           allocated_minutes al \<le> 60 * tdh + 30 * int (length subjects)"
proof (cases "subjects = []")
  case True
  then show ?thesis using assms(2) by (simp add: distribute_study_hours_def allocated_minutes_def)
next
  case False
  let ?ss = "sort_key (\<lambda>x. - score_of x) (map (set_score today) subjects)"
  let ?tp = "sum_list (map (blend today) subjects)"
  have pos: "\<forall>s\<in>set subjects. 0 < blend today s"
    using assms(1) by (simp add: blend_pos)
  obtain s0 rest where sr: "subjects = s0 # rest" using False by (cases subjects) auto
  have "0 \<le> sum_list (map (blend today) rest)"
    using pos sr by (intro sum_list_nonneg) auto
  then have tp: "0 < ?tp" using pos sr by (simp add: add_pos_nonneg)
  have "?tp \<noteq> 0" using tp by simp
  then obtain res where res: "distribute_loop ?tp (of_int tdh) ?ss (of_int tdh) [] = Inr res"
    using distribute_loop_total by blast
  have sc: "\<forall>s\<in>set ?ss. 0 \<le> score_of s"
    using pos by (auto simp: score_of_set_score less_imp_le)
  have t0: "(0::rat) \<le> of_int tdh" using assms(2) by simp
  have B: "(\<forall>h\<in>set (map snd res). 0 \<le> h) \<and>
         sum_list (map snd res) \<le> sum_list (map snd []) + max (of_int tdh) 0 + of_nat (length ?ss) / 2"
    using distribute_loop_sum_bound [OF tp t0 sc _ res] by simp
  have "rat_of_int (allocated_minutes res) \<le> 60 * sum_list (map snd res)"
    using B by (intro allocated_minutes_le) simp
  also have "\<dots> \<le> 60 * (of_int tdh + of_nat (length subjects) / 2)"
  proof -
    have "max (rat_of_int tdh) 0 = of_int tdh" using t0 by (rule max_absorb1)
    then have "sum_list (map snd res) \<le> of_int tdh + of_nat (length subjects) / 2"
      using B by simp
    then show ?thesis by (rule mult_left_mono) simp
  qed
  also have "\<dots> = rat_of_int (60 * tdh + 30 * int (length subjects))" by simp
  finally have "allocated_minutes res \<le> 60 * tdh + 30 * int (length subjects)"
    by (simp only: of_int_le_iff)
  moreover have "distribute_study_hours today subjects tdh = Inr (map (set_score today) subjects, res)"
    using res by (simp add: distribute_study_hours_eq [OF False])
  ultimately show ?thesis by blast
qed










lemma distribute_loop_keys:
  "distribute_loop tp tdh ss r al = Inr res \<Longrightarrow> fst ` set res = fst ` set al \<union> name ` set ss"
proof (induction ss arbitrary: r al)
  case Nil
  then show ?case by simp
next
  case (Cons s rest)
  show ?case
  proof (cases "rest = []")
    case True
    have "res = AList.update (name s) (clamp_hours r r) al"
      using Cons.prems True by (simp del: distribute_loop.simps add: distribute_loop_last)
    then have "fst ` set res = {name s} \<union> fst ` set al"
      by (simp only: dom_update)
    then show ?thesis using True by auto
  next
    case False
    show ?thesis
    proof (cases "tp = 0")
      case True
      then show ?thesis using Cons.prems False by (simp add: truediv_def)
    next
      case tp: False
      from Cons.prems have "distribute_loop tp tdh rest (r - py_round1 (score_of s / tp * tdh))
       (AList.update (name s)
          (clamp_hours (py_round1 (score_of s / tp * tdh)) (r - py_round1 (score_of s / tp * tdh))) al)
        = Inr res"
        by (simp only: distribute_loop_step [OF False tp])
      from Cons.IH [OF this] have "fst ` set res =
          ({name s} \<union> fst ` set al) \<union> name ` set rest"
        by (simp only: dom_update)
      then show ?thesis by auto
    qed
  qed
qed

subsection \<open>The scheduler of \<open>Schedulyze/api.py\<close>\<close>

lemma urgency_score_max: "urgency_score d \<le> 100"
  by (simp add: urgency_score_def)

lemma urgency_score_overdue: "d \<le> 0 \<Longrightarrow> urgency_score d = 100"
  by (simp add: urgency_score_def)

lemma api_subjects_loop_skip:
  "deadline (fst x) < today \<Longrightarrow>
   api_subjects_loop today st (x # xs) schedule = api_subjects_loop today st xs schedule"
  by (simp add: Let_def)

lemma api_subjects_loop_filter:
  "api_subjects_loop today st (filter (\<lambda>x. today \<le> deadline (fst x)) xs) schedule =
   api_subjects_loop today st xs schedule"
proof (induction xs arbitrary: schedule)
  case Nil
  then show ?case by simp
next
  case (Cons x xs)
  show ?case
  proof (cases "today \<le> deadline (fst x)")
    case True
    then show ?thesis using Cons.IH by (simp add: Let_def split: sum.splits prod.splits)
  next
    case False
    then have "deadline (fst x) < today" by simp
    then show ?thesis using Cons.IH False by (simp only: api_subjects_loop_skip filter.simps if_False)
  qed
qed

lemma generate_api_filter:
  "generate_optimized_schedule_api today (filter (\<lambda>s. today \<le> deadline s) subjects) st =
   generate_optimized_schedule_api today subjects st"
proof -
  let ?f = "\<lambda>s. (s, calculate_priority_score_tiered today s)"
  have "sort_key (\<lambda>x. - snd x) (map ?f (filter (\<lambda>s. today \<le> deadline s) subjects)) =
        filter (\<lambda>x. today \<le> deadline (fst x)) (sort_key (\<lambda>x. - snd x) (map ?f subjects))"
    by (simp add: filter_sort filter_map o_def)
  then show ?thesis
    by (simp add: generate_optimized_schedule_api_def api_subjects_loop_filter Let_def)
qed

lemma api_day_step_exhausted:
  "h \<le> 0 \<Longrightarrow>
   api_day_step today st sd da d (h, sch) =
     Inr (\<not> (\<not> include_weekends st \<and> weekday (today + int d) \<ge> 5), h, sch)"
  by (simp add: api_day_step_def Let_def min_def)

lemma api_days_loop_exhausted:
  "h \<le> 0 \<Longrightarrow> api_days_loop today st sd da offsets (h, sch) = Inr (h, sch)"
  by (induction offsets) (simp_all add: api_day_step_exhausted split: bool.splits)

lemma api_day_step_flag:
  "api_day_step today st sd da d (h, sch) = Inr (flag, h', sch') \<Longrightarrow> h' \<le> 0 \<Longrightarrow>
   flag \<or> (h' = h \<and> sch' = sch)"
  by (auto simp: api_day_step_def Let_def split: if_splits prod.splits)

lemma api_session_step_names:
  "api_session_step st sd d n i (h, t, sch) = (flag, h', t', sch') \<Longrightarrow> name (fst sd) \<in> N \<Longrightarrow>
   \<forall>e\<in>set sch. type e = Study \<longrightarrow> subject e \<in> N \<Longrightarrow>
   \<forall>e\<in>set sch'. type e = Study \<longrightarrow> subject e \<in> N"
  by (auto simp: api_session_step_def Let_def split: if_splits)

lemma api_sessions_loop_names:
  "api_sessions_loop st sd d n is (h, t, sch) = (h', t', sch') \<Longrightarrow> name (fst sd) \<in> N \<Longrightarrow>
   \<forall>e\<in>set sch. type e = Study \<longrightarrow> subject e \<in> N \<Longrightarrow>
   \<forall>e\<in>set sch'. type e = Study \<longrightarrow> subject e \<in> N"
proof (induction "is" arbitrary: h t sch)
  case Nil
  then show ?case by simp
next
  case (Cons i "is")
  obtain flag h1 t1 sch1 where
    step: "api_session_step st sd d n i (h, t, sch) = (flag, h1, t1, sch1)"
    using prod_cases4 by blast
  have inv: "\<forall>e\<in>set sch1. type e = Study \<longrightarrow> subject e \<in> N"
    using api_session_step_names [OF step Cons.prems(2,3)] .
  show ?case
  proof (cases flag)
    case True
    then have "sch' = sch1" using Cons.prems(1) step by simp
    then show ?thesis using inv by simp
  next
    case False
    then have "api_sessions_loop st sd d n is (h1, t1, sch1) = (h', t', sch')"
      using Cons.prems(1) step by simp
    from Cons.IH [OF this Cons.prems(2) inv] show ?thesis .
  qed
qed

lemma api_day_step_names:
  assumes "api_day_step today st sd da d (h, sch) = Inr (flag, h', sch')" "name (fst sd) \<in> N"
    "\<forall>e\<in>set sch. type e = Study \<longrightarrow> subject e \<in> N"
  shows "\<forall>e\<in>set sch'. type e = Study \<longrightarrow> subject e \<in> N"
proof -
  consider (same) "sch' = sch"
    | (run) n "is" t h1 t1 where "api_sessions_loop st sd (today + int d) n is (h, t, sch) = (h1, t1, sch')"
    using assms(1)
    by (auto simp: api_day_step_def Let_def split: if_splits prod.splits)
  then show ?thesis
  proof cases
    case same
    then show ?thesis using assms(3) by simp
  next
    case run
    from api_sessions_loop_names [OF run assms(2,3)] show ?thesis .
  qed
qed

lemma api_days_loop_names:
  "api_days_loop today st sd da offsets (h, sch) = Inr (h', sch') \<Longrightarrow> name (fst sd) \<in> N \<Longrightarrow>
   \<forall>e\<in>set sch. type e = Study \<longrightarrow> subject e \<in> N \<Longrightarrow>
   \<forall>e\<in>set sch'. type e = Study \<longrightarrow> subject e \<in> N"
proof (induction offsets arbitrary: h sch)
  case Nil
  then show ?case by simp
next
  case (Cons d offsets)
  obtain flag h1 sch1 where
    step: "api_day_step today st sd da d (h, sch) = Inr (flag, h1, sch1)"
    using Cons.prems(1) by (auto split: sum.splits)
  have inv: "\<forall>e\<in>set sch1. type e = Study \<longrightarrow> subject e \<in> N"
    using api_day_step_names [OF step Cons.prems(2,3)] .
  show ?case
  proof (cases flag)
    case True
    then have "sch' = sch1" using Cons.prems(1) step by simp
    then show ?thesis using inv by simp
  next
    case False
    then have "api_days_loop today st sd da offsets (h1, sch1) = Inr (h', sch')"
      using Cons.prems(1) step by simp
    from Cons.IH [OF this Cons.prems(2) inv] show ?thesis .
  qed
qed

lemma api_subjects_loop_names:
  "api_subjects_loop today st xs sch = Inr sch' \<Longrightarrow> name ` fst ` set xs \<subseteq> N \<Longrightarrow>
   \<forall>e\<in>set sch. type e = Study \<longrightarrow> subject e \<in> N \<Longrightarrow>
   \<forall>e\<in>set sch'. type e = Study \<longrightarrow> subject e \<in> N"
proof (induction xs arbitrary: sch)
  case Nil
  then show ?case by simp
next
  case (Cons x xs)
  have N: "name (fst x) \<in> N" "name ` fst ` set xs \<subseteq> N" using Cons.prems(2) by auto
  show ?case
  proof (cases "deadline (fst x) - today + 1 \<le> 0")
    case True
    then have "api_subjects_loop today st xs sch = Inr sch'"
      using Cons.prems(1) by (simp add: Let_def)
    from Cons.IH [OF this N(2) Cons.prems(3)] show ?thesis .
  next
    case False
    then obtain h1 sch1 where
      days: "api_days_loop today st x (deadline (fst x) - today + 1)
               [0..<nat (deadline (fst x) - today + 1)] (hours_needed (fst x), sch) = Inr (h1, sch1)"
      and rest: "api_subjects_loop today st xs sch1 = Inr sch'"
      using Cons.prems(1) by (auto simp: Let_def split: if_splits sum.splits)
    have "\<forall>e\<in>set sch1. type e = Study \<longrightarrow> subject e \<in> N"
      using api_days_loop_names [OF days N(1) Cons.prems(3)] .
    from Cons.IH [OF rest N(2) this] show ?thesis .
  qed
qed

lemma generate_api_names:
  assumes "generate_optimized_schedule_api today subjects st = Inr schedule"
  shows "\<forall>e\<in>set schedule. type e = Study \<longrightarrow> subject e \<in> name ` set subjects"
proof -
  let ?xs = "sort_key (\<lambda>x. - snd x) (map (\<lambda>s. (s, calculate_priority_score_tiered today s)) subjects)"
  obtain sch where run: "api_subjects_loop today st ?xs [] = Inr sch"
    and s: "schedule = sort_key (\<lambda>x. (date x, start_time x)) sch"
    using assms by (auto simp: generate_optimized_schedule_api_def Let_def split: sum.splits)
  have "name ` fst ` set ?xs \<subseteq> name ` set subjects" by (auto simp: image_iff)
  from api_subjects_loop_names [OF run this] have
    "\<forall>e\<in>set sch. type e = Study \<longrightarrow> subject e \<in> name ` set subjects" by simp
  then show ?thesis by (simp add: s)
qed

subsection \<open>Claims about the allocator\<close>

text \<open>
  C2 (amended). \<open>distribute_study_hours\<close> never reads the hours a subject needs: two
  subject lists that differ only in \<open>study_hours\<close> get the same allocation, so that no
  allocation is capped by the subject's need and a subject that needs nothing is treated
  like any other. For a non-empty list the returned dict is the result of the allocation
  loop over all subjects in descending score order, with \<open>total_priority\<close> the sum of
  the scores of all subjects; and the keys of a returned dict are the names of all
  subjects.
\<close>

theorem allocation_ignores_study_hours:
  "(map (\<lambda>s. s\<lparr>study_hours := 0\<rparr>) subjects1 = map (\<lambda>s. s\<lparr>study_hours := 0\<rparr>) subjects2 \<longrightarrow>
      allocation today subjects1 total_daily_hours = allocation today subjects2 total_daily_hours) \<and>
   (subjects \<noteq> [] \<longrightarrow>
      allocation today subjects total_daily_hours =
        distribute_loop (sum_list (map (blend today) subjects)) (of_int total_daily_hours)
          (sort_key (\<lambda>x. - score_of x) (map (set_score today) subjects))
          (of_int total_daily_hours) []) \<and>
   (allocation today subjects total_daily_hours = Inr hour_distribution \<longrightarrow>
      set (map fst hour_distribution) = name ` set subjects)"
proof (intro conjI impI)
  assume a: "map (\<lambda>s. s\<lparr>study_hours := 0\<rparr>) subjects1 = map (\<lambda>s. s\<lparr>study_hours := 0\<rparr>) subjects2"
  have "allocation today subjects1 total_daily_hours =
        allocation today (map (\<lambda>s. s\<lparr>study_hours := 0\<rparr>) subjects1) total_daily_hours"
    by (simp only: allocation_study_hours_const)
  also have "\<dots> = allocation today (map (\<lambda>s. s\<lparr>study_hours := 0\<rparr>) subjects2) total_daily_hours"
    by (simp only: a)
  also have "\<dots> = allocation today subjects2 total_daily_hours"
    by (simp only: allocation_study_hours_const)
  finally show "allocation today subjects1 total_daily_hours =
    allocation today subjects2 total_daily_hours" .
next
  assume "subjects \<noteq> []"
  then show "allocation today subjects total_daily_hours =
        distribute_loop (sum_list (map (blend today) subjects)) (of_int total_daily_hours)
          (sort_key (\<lambda>x. - score_of x) (map (set_score today) subjects))
          (of_int total_daily_hours) []"
    by (rule allocation_eq)
next
  assume a: "allocation today subjects total_daily_hours = Inr hour_distribution"
  show "set (map fst hour_distribution) = name ` set subjects"
  proof (cases "subjects = []")
    case True
    then show ?thesis using a by (simp add: allocation_def distribute_study_hours_def)
  next
    case False
    have "distribute_loop (sum_list (map (blend today) subjects)) (of_int total_daily_hours)
          (sort_key (\<lambda>x. - score_of x) (map (set_score today) subjects))
          (of_int total_daily_hours) [] = Inr hour_distribution"
      using a by (simp only: allocation_eq [OF False])
    from distribute_loop_keys [OF this] show ?thesis
      by (simp add: set_score_def image_image)
  qed
qed

text \<open>
  Witness for C2: a subject that needs 1 hour and one that needs none, against the same
  two needing 40 and 7 hours, with 6 hours a day; the split is over both scores
  (\<open>2/5 + 2/5\<close>) and gives each subject 3 hours.
\<close>

theorem allocation_ignores_study_hours_witness:
  "allocation 739257
     [\<lparr>name = ''a'', deadline = 739267, difficulty = 3, study_hours = 1, importance = 3,
       priority_score = None\<rparr>,
      \<lparr>name = ''b'', deadline = 739267, difficulty = 3, study_hours = 0, importance = 3,
       priority_score = None\<rparr>] 6 =
   allocation 739257
     [\<lparr>name = ''a'', deadline = 739267, difficulty = 3, study_hours = 40, importance = 3,
       priority_score = None\<rparr>,
      \<lparr>name = ''b'', deadline = 739267, difficulty = 3, study_hours = 7, importance = 3,
       priority_score = None\<rparr>] 6 \<and>
   distribute_loop (4 / 5) 6
     [\<lparr>name = ''a'', deadline = 739267, difficulty = 3, study_hours = 1, importance = 3,
       priority_score = Some (2 / 5)\<rparr>,
      \<lparr>name = ''b'', deadline = 739267, difficulty = 3, study_hours = 0, importance = 3,
       priority_score = Some (2 / 5)\<rparr>] 6 [] = Inr [(''a'', 3), (''b'', 3)] \<and>
   set (map fst [(''a'', 3 :: rat), (''b'', 3)]) = {''a'', ''b''}"
proof -
  let ?s1 = "[\<lparr>name = ''a'', deadline = 739267, difficulty = 3, study_hours = 1, importance = 3,
       priority_score = None\<rparr>,
      \<lparr>name = ''b'', deadline = 739267, difficulty = 3, study_hours = 0, importance = 3,
       priority_score = None\<rparr>]"
  let ?s2 = "[\<lparr>name = ''a'', deadline = 739267, difficulty = 3, study_hours = 40, importance = 3,
       priority_score = None\<rparr>,
      \<lparr>name = ''b'', deadline = 739267, difficulty = 3, study_hours = 7, importance = 3,
       priority_score = None\<rparr>]"
  have m: "map (\<lambda>s. s\<lparr>study_hours := 0\<rparr>) ?s1 = map (\<lambda>s. s\<lparr>study_hours := 0\<rparr>) ?s2" by simp
  have n: "?s1 \<noteq> []" by simp
  have r: "allocation 739257 ?s1 6 = Inr [(''a'', 3), (''b'', 3)]" by code_simp
  have tp: "sum_list (map (blend 739257) ?s1) = 4 / 5" by code_simp
  have so: "sort_key (\<lambda>x. - score_of x) (map (set_score 739257) ?s1) =
     [\<lparr>name = ''a'', deadline = 739267, difficulty = 3, study_hours = 1, importance = 3,
       priority_score = Some (2 / 5)\<rparr>,
      \<lparr>name = ''b'', deadline = 739267, difficulty = 3, study_hours = 0, importance = 3,
       priority_score = Some (2 / 5)\<rparr>]" by code_simp
  note t = allocation_ignores_study_hours [of ?s1 ?s2 739257 6 ?s1 "[(''a'', 3), (''b'', 3)]"]
  from t m have 1: "allocation 739257 ?s1 6 = allocation 739257 ?s2 6" by blast
  from t n have "allocation 739257 ?s1 6 =
        distribute_loop (sum_list (map (blend 739257) ?s1)) (of_int 6)
          (sort_key (\<lambda>x. - score_of x) (map (set_score 739257) ?s1)) (of_int 6) []" by blast
  then have 2: "distribute_loop (4 / 5) 6
     [\<lparr>name = ''a'', deadline = 739267, difficulty = 3, study_hours = 1, importance = 3,
       priority_score = Some (2 / 5)\<rparr>,
      \<lparr>name = ''b'', deadline = 739267, difficulty = 3, study_hours = 0, importance = 3,
       priority_score = Some (2 / 5)\<rparr>] 6 [] = Inr [(''a'', 3), (''b'', 3)]"
    unfolding tp so r by simp
  from t r have "set (map fst [(''a'', 3 :: rat), (''b'', 3)]) = name ` set ?s1" by blast
  then have 3: "set (map fst [(''a'', 3 :: rat), (''b'', 3)]) = {''a'', ''b''}" by simp
  show ?thesis using 1 2 3 by blast
qed

text \<open>
  Counterexample to C2 as stated: with 6 hours a day and equal scores, the subject that needs
  1 hour is allocated 3 hours, and the subject that needs none is allocated 3 hours, not 0.
\<close>

theorem allocation_not_capped_by_need_counterexample:
  "allocation 739257
     [\<lparr>name = ''a'', deadline = 739267, difficulty = 3, study_hours = 1, importance = 3,
       priority_score = None\<rparr>,
      \<lparr>name = ''b'', deadline = 739267, difficulty = 3, study_hours = 0, importance = 3,
       priority_score = None\<rparr>] 6 = Inr [(''a'', 3), (''b'', 3)] \<and>
   (3 :: rat) * 60 > 1 * 60 \<and> (3 :: rat) \<noteq> 0"
  by code_simp

text \<open>
  C5 (amended). For a non-empty list of subjects with distinct names, difficulty and
  importance not negative and daily hours not negative, the allocator returns one entry per
  subject, each either 0 or at least half an hour (the minimum of line 105), and their sum
  is at most the daily hours plus half an hour per subject.
\<close>

theorem allocation_total_bound:
  assumes "subjects \<noteq> []" "distinct (map name subjects)"
    "\<forall>s\<in>set subjects. 0 \<le> difficulty s \<and> 0 \<le> importance s" "0 \<le> total_daily_hours"
  shows "\<exists>hour_distribution.
           allocation today subjects total_daily_hours = Inr hour_distribution \<and>
           length hour_distribution = length subjects \<and>
           (\<forall>h\<in>set (map snd hour_distribution). h = 0 \<or> 1 / 2 \<le> h) \<and>
           allocated_total hour_distribution \<le>
             of_int total_daily_hours + of_nat (length subjects) / 2"
proof -
  let ?ss = "sort_key (\<lambda>x. - score_of x) (map (set_score today) subjects)"
  let ?tp = "sum_list (map (blend today) subjects)"
  have pos: "\<forall>s\<in>set subjects. 0 < blend today s"
    using assms(3) by (simp add: blend_pos)
  obtain s0 rest where sr: "subjects = s0 # rest" using assms(1) by (cases subjects) auto
  have "0 \<le> sum_list (map (blend today) rest)"
    using pos sr by (intro sum_list_nonneg) auto
  then have tp: "0 < ?tp" using pos sr by (simp add: add_pos_nonneg)
  have "?tp \<noteq> 0" using tp by simp
  then obtain res where res: "distribute_loop ?tp (of_int total_daily_hours) ?ss
      (of_int total_daily_hours) [] = Inr res"
    using distribute_loop_total by blast
  have sc: "\<forall>s\<in>set ?ss. 0 \<le> score_of s"
    using pos by (auto simp: score_of_set_score less_imp_le)
  have nm: "map name (map (set_score today) subjects) = map name subjects"
    by (simp add: set_score_def)
  have "distinct (map name (map (set_score today) subjects))"
    using assms(2) by (simp only: nm)
  then have di: "distinct (map name ?ss)"
    by (simp only: distinct_map_sort_key)
  have B: "map fst res = map fst [] @ map name ?ss \<and>
         (\<forall>h\<in>set (map snd res). h \<in> set (map snd []) \<or> h = 0 \<or> 1 / 2 \<le> h) \<and>
         sum_list (map snd res) \<le> sum_list (map snd []) + max (of_int total_daily_hours) 0 +
           of_nat (length ?ss) / 2"
    using distribute_loop_bound [OF tp _ sc di _ res] assms(4) by simp
  have "length (map fst res) = length (map name ?ss)" using B by simp
  then have len: "length res = length subjects" by simp
  have "allocation today subjects total_daily_hours = Inr res"
    using res by (simp only: allocation_eq [OF assms(1)])
  moreover have "\<forall>h\<in>set (map snd res). h = 0 \<or> 1 / 2 \<le> h" using B by simp
  moreover have "allocated_total res \<le> of_int total_daily_hours + of_nat (length subjects) / 2"
    using B assms(4) by (auto simp: allocated_total_def max_def split: if_splits)
  ultimately show ?thesis using len by blast
qed

text \<open>Witness for C5: three subjects with equal scores and 1 hour a day.\<close>

theorem allocation_total_bound_witness:
  "\<exists>hour_distribution.
     allocation 739257
       [\<lparr>name = ''a'', deadline = 739267, difficulty = 3, study_hours = 1, importance = 3,
         priority_score = None\<rparr>,
        \<lparr>name = ''b'', deadline = 739267, difficulty = 3, study_hours = 1, importance = 3,
         priority_score = None\<rparr>,
        \<lparr>name = ''c'', deadline = 739267, difficulty = 3, study_hours = 1, importance = 3,
         priority_score = None\<rparr>] 1 = Inr hour_distribution \<and>
     allocated_total hour_distribution \<le> 1 + 3 / 2"
proof -
  let ?ss = "[\<lparr>name = ''a'', deadline = 739267, difficulty = 3, study_hours = 1, importance = 3,
         priority_score = None\<rparr>,
        \<lparr>name = ''b'', deadline = 739267, difficulty = 3, study_hours = 1, importance = 3,
         priority_score = None\<rparr>,
        \<lparr>name = ''c'', deadline = 739267, difficulty = 3, study_hours = 1, importance = 3,
         priority_score = None\<rparr>]"
  have 1: "?ss \<noteq> []" by simp
  have 2: "distinct (map name ?ss)" by simp
  have 3: "\<forall>s\<in>set ?ss. 0 \<le> difficulty s \<and> 0 \<le> importance s" by simp
  have 4: "(0::int) \<le> 1" by simp
  from allocation_total_bound [OF 1 2 3 4, of 739257] show ?thesis by auto
qed

text \<open>
  Counterexample to C5 as stated. Three subjects with equal scores and a budget of 1 hour
  get half an hour each, 1.5 hours in all; a subject due today and one due in 100 days,
  with a budget of 6 hours, get 0.7 and 0.5 hours, 1.2 hours in all.
\<close>

theorem allocation_total_not_budget_counterexample:
  "allocation 739257
     [\<lparr>name = ''a'', deadline = 739267, difficulty = 3, study_hours = 1, importance = 3,
       priority_score = None\<rparr>,
      \<lparr>name = ''b'', deadline = 739267, difficulty = 3, study_hours = 1, importance = 3,
       priority_score = None\<rparr>,
      \<lparr>name = ''c'', deadline = 739267, difficulty = 3, study_hours = 1, importance = 3,
       priority_score = None\<rparr>] 1 = Inr [(''a'', 1 / 2), (''b'', 1 / 2), (''c'', 1 / 2)] \<and>
   allocated_total [(''a'', 1 / 2), (''b'', 1 / 2), (''c'', 1 / 2)] > 1 \<and>
   allocation 739257
     [\<lparr>name = ''a'', deadline = 739257, difficulty = 5, study_hours = 1, importance = 5,
       priority_score = None\<rparr>,
      \<lparr>name = ''b'', deadline = 739357, difficulty = 1, study_hours = 1, importance = 1,
       priority_score = None\<rparr>] 6 = Inr [(''a'', 7 / 10), (''b'', 1 / 2)] \<and>
   allocated_total [(''a'', 7 / 10), (''b'', 1 / 2)] < 6"
  by code_simp

text \<open>
  C9 (amended). \<open>distribute_study_hours\<close> writes the key \<open>priority_score\<close> into every
  subject dict of the caller's list and leaves the other keys, the order and the length of
  the list as they were.
\<close>

theorem distribute_study_hours_writes_priority_score:
  assumes "distribute_study_hours today subjects total_daily_hours = Inr (subjects', hour_distribution)"
  shows "list_all2 (\<lambda>s s'. \<exists>p. calculate_priority_score today (deadline s) (difficulty s)
                                  (importance s) = Inr p \<and> s' = s\<lparr>priority_score := Some p\<rparr>)
           subjects subjects'"
proof (cases "subjects = []")
  case True
  then show ?thesis using assms by (simp add: distribute_study_hours_def)
next
  case False
  have "subjects' = map (set_score today) subjects"
    using assms False by (auto simp: distribute_study_hours_eq split: sum.splits)
  then show ?thesis
    by (simp add: list_all2_conv_all_nth calculate_priority_score_blend set_score_def)
qed

text \<open>Witness for C9: one subject, due in 10 days.\<close>

theorem distribute_study_hours_writes_priority_score_witness:
  "list_all2 (\<lambda>s s'. \<exists>p. calculate_priority_score 739257 (deadline s) (difficulty s)
                                  (importance s) = Inr p \<and> s' = s\<lparr>priority_score := Some p\<rparr>)
     [\<lparr>name = ''a'', deadline = 739267, difficulty = 3, study_hours = 1, importance = 3,
       priority_score = None\<rparr>]
     [\<lparr>name = ''a'', deadline = 739267, difficulty = 3, study_hours = 1, importance = 3,
       priority_score = Some (2 / 5)\<rparr>]"
proof -
  have "distribute_study_hours 739257
     [\<lparr>name = ''a'', deadline = 739267, difficulty = 3, study_hours = 1, importance = 3,
       priority_score = None\<rparr>] 6 =
     Inr ([\<lparr>name = ''a'', deadline = 739267, difficulty = 3, study_hours = 1, importance = 3,
       priority_score = Some (2 / 5)\<rparr>], [(''a'', 6)])"
    by code_simp
  from distribute_study_hours_writes_priority_score [OF this] show ?thesis .
qed

text \<open>
  Counterexample to C9 as stated: the caller's subject has no \<open>priority_score\<close> before the
  call and has one after it.
\<close>

theorem caller_subjects_mutated_counterexample:
  "distribute_study_hours 739257
     [\<lparr>name = ''a'', deadline = 739267, difficulty = 3, study_hours = 1, importance = 3,
       priority_score = None\<rparr>] 6 =
     Inr ([\<lparr>name = ''a'', deadline = 739267, difficulty = 3, study_hours = 1, importance = 3,
       priority_score = Some (2 / 5)\<rparr>], [(''a'', 6)]) \<and>
   [\<lparr>name = ''a'', deadline = 739267, difficulty = 3, study_hours = 1, importance = 3,
       priority_score = Some (2 / 5)\<rparr>] \<noteq>
   [\<lparr>name = ''a'', deadline = 739267, difficulty = 3, study_hours = 1, importance = 3,
       priority_score = None\<rparr>]"
  by code_simp

subsection \<open>Claims about the day's blocks\<close>

text \<open>
  C3. \<open>_create_daily_schedule\<close> appends a Break after a Study block only while the
  same subject has minutes left (line 208, \<open>if total_minutes > 0\<close>, under the comment
  ``Add break if there's more to study''): the last block of a subject is followed
  directly by the first block of the next subject. With 2 hours a day and two subjects
  of equal score, each is allocated 1 hour, and with sessions of 60 and breaks of 15
  minutes the day is Study \<open>a\<close> 09:00-10:00, Study \<open>b\<close> 10:00-11:00: the Study block of
  \<open>a\<close> is not the last block of the day and no Break follows it.
\<close>

theorem no_break_between_subjects:
  "allocation 739257
     [\<lparr>name = ''a'', deadline = 739267, difficulty = 3, study_hours = 1, importance = 3,
       priority_score = None\<rparr>,
      \<lparr>name = ''b'', deadline = 739267, difficulty = 3, study_hours = 1, importance = 3,
       priority_score = None\<rparr>] 2 = Inr [(''a'', 1), (''b'', 1)] \<and>
   create_daily_schedule 739257 [(''a'', 1), (''b'', 1)] 60 15 (9, 0) =
     Some (Inr
      [\<lparr>date = 739257, start_time = 540, end_time = 600, subject = ''a'', type = Study, duration = 60\<rparr>,
       \<lparr>date = 739257, start_time = 600, end_time = 660, subject = ''b'', type = Study, duration = 60\<rparr>]) \<and>
   \<not> break_after_every_study 15
      [\<lparr>date = 739257, start_time = 540, end_time = 600, subject = ''a'', type = Study, duration = 60\<rparr>,
       \<lparr>date = 739257, start_time = 600, end_time = 660, subject = ''b'', type = Study, duration = 60\<rparr>]"
  by code_simp

text \<open>
  C6 (amended). For a positive session length, the entries \<open>_create_daily_schedule\<close>
  returns for a date are contiguous from the day's start time: the first starts there and
  each entry ends, on the 24-hour clock, at its start plus its duration, where the next one
  starts. When the break length is not negative and the day's blocks end before midnight,
  the entries are ordered by start time and do not overlap. The Study minutes of the day
  are the minutes allocated to the subjects, \<open>int(hours * 60)\<close> each; the breaks come on
  top of them, and the daily budget does not bound the day.
\<close>

theorem daily_schedule_contiguous:
  assumes "0 < session_length'"
    "create_daily_schedule date' hour_distribution session_length' break_length' (h, m) =
       Some (Inr daily_schedule)"
  shows "contiguous_from (h * 60 + m) daily_schedule \<and>
         (0 \<le> break_length' \<and> h * 60 + m + sum_list (map duration daily_schedule) < 1440 \<longrightarrow>
            sorted (map start_time daily_schedule) \<and>
            sorted_wrt (\<lambda>a b. end_time a \<le> start_time b) daily_schedule) \<and>
         study_total daily_schedule = allocated_minutes hour_distribution"
proof -
  have ds: "daily_schedule = day_blocks date' session_length' break_length' hour_distribution (h * 60 + m)"
    and r: "0 \<le> h" "h < 24" "0 \<le> m" "m < 60"
    using create_daily_schedule_blocks [OF assms] by simp_all
  have t: "0 \<le> h * 60 + m" "h * 60 + m < 1440" using r by auto
  have ch: "chain (h * 60 + m) daily_schedule" unfolding ds by (rule chain_day_blocks)
  have "strftime_HM (h * 60 + m) = h * 60 + m" using t by (simp add: strftime_HM_def)
  then have 1: "contiguous_from (h * 60 + m) daily_schedule"
    using chain_contiguous [OF ch] by simp
  have 2: "sorted (map start_time daily_schedule) \<and>
           sorted_wrt (\<lambda>a b. end_time a \<le> start_time b) daily_schedule"
    if "0 \<le> break_length'" "h * 60 + m + sum_list (map duration daily_schedule) < 1440"
  proof -
    have "\<forall>e\<in>set daily_schedule. 0 \<le> duration e"
      unfolding ds using that(1) by (rule day_blocks_durations)
    from chain_sorted [OF ch this t(1) that(2)] show ?thesis by blast
  qed
  have 3: "study_total daily_schedule = allocated_minutes hour_distribution"
    unfolding ds using assms(1) by (rule day_blocks_study_total)
  show ?thesis using 1 2 3 by blast
qed

text \<open>
  Witness for C6: a day with 90 minutes for \<open>a\<close> and 60 for \<open>b\<close>, sessions of 60 and
  breaks of 15 minutes, from 09:00.
\<close>

theorem daily_schedule_contiguous_witness:
  "contiguous_from 540
     [\<lparr>date = 739257, start_time = 540, end_time = 600, subject = ''a'', type = Study, duration = 60\<rparr>,
      \<lparr>date = 739257, start_time = 600, end_time = 615, subject = ''Break'', type = Break, duration = 15\<rparr>,
      \<lparr>date = 739257, start_time = 615, end_time = 645, subject = ''a'', type = Study, duration = 30\<rparr>,
      \<lparr>date = 739257, start_time = 645, end_time = 705, subject = ''b'', type = Study, duration = 60\<rparr>] \<and>
   sorted [540, 600, 615, 645 :: int]"
proof -
  let ?ds = "[\<lparr>date = 739257, start_time = 540, end_time = 600, subject = ''a'', type = Study, duration = 60\<rparr>,
      \<lparr>date = 739257, start_time = 600, end_time = 615, subject = ''Break'', type = Break, duration = 15\<rparr>,
      \<lparr>date = 739257, start_time = 615, end_time = 645, subject = ''a'', type = Study, duration = 30\<rparr>,
      \<lparr>date = 739257, start_time = 645, end_time = 705, subject = ''b'', type = Study, duration = 60\<rparr>]"
  have c: "create_daily_schedule 739257 [(''a'', 3 / 2), (''b'', 1)] 60 15 (9, 0) = Some (Inr ?ds)"
    by code_simp
  have s: "(0::int) < 60" by simp
  have p: "(0::int) \<le> 15 \<and> 9 * 60 + 0 + sum_list (map duration ?ds) < 1440" by simp
  from daily_schedule_contiguous [OF s c] p show ?thesis by simp
qed

text \<open>
  Counterexample to C6 as stated. With a budget of 2 hours, sessions of 60 and breaks of
  15 minutes, the first day holds Study 60, Break 15, Study 60: 135 minutes, more than the
  120 of the budget. And a day that starts at 23:00 runs past midnight, where the
  \<open>HH:MM\<close> start times are no longer in order.
\<close>

theorem day_exceeds_budget_counterexample:
  "(case generate_schedule 739257
           [\<lparr>name = ''a'', deadline = 739264, difficulty = 3, study_hours = 2, importance = 3,
             priority_score = None\<rparr>]
           739257 2 60 15 (9, 0) of
      Some (Inr schedule) \<Rightarrow> day_minutes 739257 schedule
    | _ \<Rightarrow> 0) = 135 \<and>
   (135 :: int) > 2 * 60 \<and>
   create_daily_schedule 739257 [(''a'', 2)] 60 15 (23, 0) =
     Some (Inr
      [\<lparr>date = 739257, start_time = 1380, end_time = 0, subject = ''a'', type = Study, duration = 60\<rparr>,
       \<lparr>date = 739257, start_time = 0, end_time = 15, subject = ''Break'', type = Break, duration = 15\<rparr>,
       \<lparr>date = 739257, start_time = 15, end_time = 75, subject = ''a'', type = Study, duration = 60\<rparr>]) \<and>
   \<not> sorted [1380, 0, 15 :: int]"
  by code_simp

subsection \<open>Claims about \<open>generate_schedule\<close> of \<open>src/app.py\<close>\<close>




text \<open>
  C8 (amended). Nothing validates the input of \<open>generate_schedule\<close>. It terminates and
  returns a schedule, no operation raising, for every input that is valid in the sense of
  the claim (\<open>valid_subject\<close>, \<open>valid_settings\<close>) and, more generally, for every input
  with difficulty and importance from 0 to \<open>2^53\<close> (integers that a float holds), daily
  hours not negative, a positive session length, a break length that is not negative and
  a start time that is a time of day, provided the window and the blocks of a day stay
  within the calendar: \<open>start_date + 31\<close> is a date, and the minutes of the longest day
  possible (60 for each daily hour and 30 for each subject, each with a break) still fit
  before the end of year 9999 after the window. The general conditions admit hours that
  are not positive, difficulty or importance above the scale and a session longer than
  the daily budget: such input is not rejected.
\<close>

theorem generate_schedule_returns_within_calendar:
  assumes "(\<forall>s\<in>set subjects. valid_subject s) \<and>
             valid_settings daily_hours' session_length' break_length' start_time' \<or>
           (\<forall>s\<in>set subjects. 0 \<le> difficulty s \<and> difficulty s \<le> 2 ^ 53 \<and>
                                0 \<le> importance s \<and> importance s \<le> 2 ^ 53) \<and>
             0 \<le> daily_hours' \<and> 0 < session_length' \<and> 0 \<le> break_length' \<and>
             0 \<le> fst start_time' \<and> fst start_time' < 24 \<and>
             0 \<le> snd start_time' \<and> snd start_time' < 60"
    "1 \<le> start_date'" "start_date' + 31 \<le> 3652059"
    "(start_date' + 31) * 1440 +
       (60 * daily_hours' + 30 * int (length subjects)) * (1 + break_length')
     \<le> 3652060 * 1440"
  shows "\<exists>schedule. generate_schedule today subjects start_date' daily_hours' session_length'
            break_length' start_time' = Some (Inr schedule)"
proof -
  have s: "\<forall>s\<in>set subjects. 0 \<le> difficulty s \<and> 0 \<le> importance s"
    using assms(1) by (auto simp: valid_subject_def)
  have v: "0 \<le> daily_hours'" "0 < session_length'" "0 \<le> break_length'"
    "0 \<le> fst start_time'" "fst start_time' < 24" "0 \<le> snd start_time'" "snd start_time' < 60"
    using assms(1) by (auto simp: valid_settings_def)
  obtain subjects' al where al:
    "distribute_study_hours today subjects daily_hours' = Inr (subjects', al)"
    and m: "allocated_minutes al \<le> 60 * daily_hours' + 30 * int (length subjects)"
    using distribute_minutes_bound [OF s v(1)] by blast
  have "allocated_minutes al * (1 + break_length') \<le>
        (60 * daily_hours' + 30 * int (length subjects)) * (1 + break_length')"
    using m v(3) by (intro mult_right_mono) simp_all
  then have b: "(start_date' + 30 + 1) * 1440 + allocated_minutes al * (1 + break_length')
      \<le> 3652060 * 1440"
    using assms(4) by simp
  have e: "start_date' + 30 + 1 \<le> 3652059" using assms(3) by simp
  have r: "date_in_range (start_date' + 30)"
    using assms(2,3) by (simp add: date_in_range_def)
  from days_loop_in_range [OF v(2-7) assms(2) e b, of "[]"]
  obtain schedule where
    "days_loop al session_length' break_length' start_time' (start_date' + 30) start_date' [] =
       Some (Inr schedule)" by blast
  then show ?thesis using al r by (simp add: generate_schedule_def)
qed

text \<open>
  Witness for C8: two well-formed subjects, 2 hours a day, sessions of 60 and breaks of 15
  minutes, from Monday 6 January 2025.
\<close>

theorem generate_schedule_returns_within_calendar_witness:
  "\<exists>schedule.
     generate_schedule 739257
       [\<lparr>name = ''a'', deadline = 739264, difficulty = 3, study_hours = 2, importance = 3,
         priority_score = None\<rparr>,
        \<lparr>name = ''b'', deadline = 739270, difficulty = 5, study_hours = 4, importance = 2,
         priority_score = None\<rparr>]
       739257 2 60 15 (9, 0) = Some (Inr schedule)"
proof -
  let ?ss = "[\<lparr>name = ''a'', deadline = 739264, difficulty = 3, study_hours = 2, importance = 3,
         priority_score = None\<rparr>,
        \<lparr>name = ''b'', deadline = 739270, difficulty = 5, study_hours = 4, importance = 2,
         priority_score = None\<rparr>]"
  have "(\<forall>s\<in>set ?ss. valid_subject s) \<and> valid_settings 2 60 15 (9, 0)"
    by (simp add: valid_subject_def valid_settings_def)
  then have 1: "(\<forall>s\<in>set ?ss. valid_subject s) \<and> valid_settings 2 60 15 (9, 0) \<or>
           (\<forall>s\<in>set ?ss. 0 \<le> difficulty s \<and> difficulty s \<le> 2 ^ 53 \<and>
                           0 \<le> importance s \<and> importance s \<le> 2 ^ 53) \<and>
             (0::int) \<le> 2 \<and> (0::int) < 60 \<and> (0::int) \<le> 15 \<and>
             0 \<le> fst (9::int, 0::int) \<and> fst (9::int, 0::int) < 24 \<and>
             0 \<le> snd (9::int, 0::int) \<and> snd (9::int, 0::int) < 60"
    by (rule disjI1)
  have 4: "(1::int) \<le> 739257" "(739257::int) + 31 \<le> 3652059" by simp_all
  have 5: "(739257 + 31) * 1440 + (60 * 2 + 30 * int (length ?ss)) * (1 + 15)
           \<le> (3652060 * 1440 :: int)" by simp
  from generate_schedule_returns_within_calendar [OF 1 4 5, of 739257] show ?thesis .
qed

text \<open>
  Counterexample to C8 as stated. A subject with difficulty 9, importance 0 and \<open>-3\<close>
  hours needed, with a session length of 600 minutes against a budget of 60, is not
  rejected: the schedule returned has 23 entries. And a well-formed input raises: from
  the start date 1 December 9999 the window ends on \<open>date.max\<close> and the step past it
  raises \<open>OverflowError\<close>.
\<close>

theorem malformed_input_scheduled_counterexample:
  "\<not> valid_subject \<lparr>name = ''a'', deadline = 739264, difficulty = 9, study_hours = - 3,
       importance = 0, priority_score = None\<rparr> \<and>
   \<not> valid_settings 1 600 15 (9, 0) \<and>
   (case generate_schedule 739257
           [\<lparr>name = ''a'', deadline = 739264, difficulty = 9, study_hours = - 3, importance = 0,
             priority_score = None\<rparr>]
           739257 1 600 15 (9, 0) of
      Some (Inr schedule) \<Rightarrow> length schedule
    | _ \<Rightarrow> 0) = 23 \<and>
   valid_subject \<lparr>name = ''a'', deadline = 3652050, difficulty = 3, study_hours = 2,
       importance = 3, priority_score = None\<rparr> \<and>
   valid_settings 2 60 15 (9, 0) \<and>
   generate_schedule 739257
     [\<lparr>name = ''a'', deadline = 3652050, difficulty = 3, study_hours = 2, importance = 3,
       priority_score = None\<rparr>]
     3652029 2 60 15 (9, 0) = Some (Inl OverflowError)"
  by code_simp

subsection \<open>The early stop of the day loops\<close>

text \<open>
  The day loop of \<open>Schedulyze/api.py\<close> has the stop: from a day on which
  \<open>hours_remaining \<le> 0\<close> the loop adds no entry, and when a day's pass leaves
  \<open>hours_remaining \<le> 0\<close> the loop returns the schedule as it is after that day,
  whatever days remain (line 160, \<open>if hours_remaining <= 0: break\<close>).
\<close>

lemma api_day_loop_stops_when_hours_exhausted:
  "(hours_remaining \<le> 0 \<longrightarrow>
      api_days_loop current_date settings' subject_data days_available offsets
        (hours_remaining, schedule) = Inr (hours_remaining, schedule)) \<and>
   (api_day_step current_date settings' subject_data days_available day_offset
        (hours_remaining, schedule) = Inr (flag, hours_remaining', schedule') \<and>
    hours_remaining' \<le> 0 \<longrightarrow>
      api_days_loop current_date settings' subject_data days_available (day_offset # offsets)
        (hours_remaining, schedule) = Inr (hours_remaining', schedule'))"
proof (intro conjI impI)
  assume "hours_remaining \<le> 0"
  then show "api_days_loop current_date settings' subject_data days_available offsets
        (hours_remaining, schedule) = Inr (hours_remaining, schedule)"
    by (rule api_days_loop_exhausted)
next
  assume a: "api_day_step current_date settings' subject_data days_available day_offset
        (hours_remaining, schedule) = Inr (flag, hours_remaining', schedule') \<and>
    hours_remaining' \<le> 0"
  show "api_days_loop current_date settings' subject_data days_available (day_offset # offsets)
        (hours_remaining, schedule) = Inr (hours_remaining', schedule')"
  proof (cases flag)
    case True
    then show ?thesis using a by simp
  next
    case False
    then have "hours_remaining' = hours_remaining \<and> schedule' = schedule"
      using api_day_step_flag a by blast
    then show ?thesis using a False by (simp add: api_days_loop_exhausted)
  qed
qed

text \<open>
  C7. The loop of \<open>generate_schedule\<close> of \<open>src/app.py\<close> (lines 140-152) has no exit
  but the date bound, under the comment ``Generate schedule for next 30 days or until all
  deadlines are met'' (line 136): it emits the same day on every weekday of its window.
  A subject that needs 1 hour and is due in 7 days, with 1 hour a day and sessions of 60
  minutes from Monday 6 January 2025, has its hour on the first day; the schedule still
  holds 60 minutes for it on the second day and on 5 February, the last day of the
  window, 23 days after its deadline: 23 Study entries in all.
\<close>

theorem entries_after_effort_exhausted:
  "(case generate_schedule 739257
           [\<lparr>name = ''a'', deadline = 739264, difficulty = 3, study_hours = 1, importance = 3,
             priority_score = None\<rparr>]
           739257 1 60 15 (9, 0) of
      Some (Inr schedule) \<Rightarrow>
        (day_minutes 739257 schedule, day_minutes 739258 schedule, day_minutes 739287 schedule,
         length schedule)
    | _ \<Rightarrow> (0, 0, 0, 0)) = (60, 60, 60, 23)"
  by code_simp

text \<open>
  C10. In the scheduler of \<open>Schedulyze/api.py\<close> a subject whose deadline is before the
  scheduling day (\<open>days_available \<le> 0\<close>) is skipped: the result is the result for the
  list without such subjects, and every Study entry of the schedule bears the name of a
  subject that is not overdue. Yet the scorer gives such a subject the urgency 100, the
  largest urgency there is.
\<close>

theorem overdue_subjects_skipped:
  "generate_optimized_schedule_api today subjects settings' =
     generate_optimized_schedule_api today (filter (\<lambda>s. today \<le> deadline s) subjects) settings' \<and>
   (\<forall>schedule. generate_optimized_schedule_api today subjects settings' = Inr schedule \<longrightarrow>
      (\<forall>e\<in>set schedule. type e = Study \<longrightarrow>
         (\<exists>s\<in>set subjects. today \<le> deadline s \<and> subject e = name s))) \<and>
   (\<forall>s\<in>set subjects. deadline s < today \<longrightarrow>
      urgency_score (deadline s - today) = 100 \<and>
      calculate_priority_score_tiered today s =
        100 * (1 + of_int (difficulty s) / 10 + min (hours_needed s / 10) 1)) \<and>
   (\<forall>d. urgency_score d \<le> 100)"
proof (intro conjI allI impI ballI)
  show "generate_optimized_schedule_api today subjects settings' =
     generate_optimized_schedule_api today (filter (\<lambda>s. today \<le> deadline s) subjects) settings'"
    by (simp only: generate_api_filter)
next
  fix schedule e
  assume "generate_optimized_schedule_api today subjects settings' = Inr schedule"
    and e: "e \<in> set schedule" "type e = Study"
  then have "generate_optimized_schedule_api today
      (filter (\<lambda>s. today \<le> deadline s) subjects) settings' = Inr schedule"
    by (simp only: generate_api_filter)
  from generate_api_names [OF this] e
  have "subject e \<in> name ` set (filter (\<lambda>s. today \<le> deadline s) subjects)" by blast
  then show "\<exists>s\<in>set subjects. today \<le> deadline s \<and> subject e = name s" by auto
next
  fix s assume "s \<in> set subjects" "deadline s < today"
  then show "urgency_score (deadline s - today) = 100"
    by (simp add: urgency_score_overdue)
next
  fix s assume "s \<in> set subjects" "deadline s < today"
  then show "calculate_priority_score_tiered today s =
        100 * (1 + of_int (difficulty s) / 10 + min (hours_needed s / 10) 1)"
    by (simp add: calculate_priority_score_tiered_def urgency_score_overdue Let_def)
next
  fix d show "urgency_score d \<le> 100" by (rule urgency_score_max)
qed

text \<open>
  Witness for C10: \<open>b\<close> was due a week ago; the schedule is the one for \<open>a\<close> alone.
\<close>

theorem overdue_subjects_skipped_witness:
  "generate_optimized_schedule_api 739257
     [\<lparr>name = ''a'', deadline = 739258, difficulty = 5, hours_needed = 5 / 2\<rparr>,
      \<lparr>name = ''b'', deadline = 739250, difficulty = 5, hours_needed = 1\<rparr>]
     \<lparr>session_length = 60, break_length = 15, daily_hours = 2, start_date = 739257,
       day_start_time = (9, 0), include_weekends = False\<rparr> =
   generate_optimized_schedule_api 739257
     [\<lparr>name = ''a'', deadline = 739258, difficulty = 5, hours_needed = 5 / 2\<rparr>]
     \<lparr>session_length = 60, break_length = 15, daily_hours = 2, start_date = 739257,
       day_start_time = (9, 0), include_weekends = False\<rparr>"
  using overdue_subjects_skipped
    [of 739257
        "[\<lparr>name = ''a'', deadline = 739258, difficulty = 5, hours_needed = 5 / 2\<rparr>,
          \<lparr>name = ''b'', deadline = 739250, difficulty = 5, hours_needed = 1\<rparr>]"
        "\<lparr>session_length = 60, break_length = 15, daily_hours = 2, start_date = 739257,
          day_start_time = (9, 0), include_weekends = False\<rparr>", THEN conjunct1]
  by simp


end
